theory Spec2Isabelle
  imports Complex_Main "HOL-Library.Word" "HOL-Library.Log_Nat"
begin

section \<open>Numbers, strings and identifiers\<close>

text \<open>
  The editor (\<^verbatim>\<open>app/pages/index.vue\<close>) computes with JavaScript numbers, the doubles
  of IEEE 754. A number is modelled by the rational it denotes (every finite double is a
  rational). Where the source tests a number with \<^verbatim>\<open>Number.isFinite\<close>, the tested value
  is a \<open>number option\<close> and \<open>None\<close> stands for every non-finite value.

  \<open>ieee\<close> rounds a rational to the nearest double, a tie going to the even significand:
  53 bits of significand, and multiples of \<open>subnormalStep\<close> below the normal range.
  Overflow is left out: the times and pixel positions of the editor are far below the
  largest double. \<open>fadd\<close>, \<open>fsub\<close>, \<open>fmul\<close> and \<open>fdiv\<close> are the machine's \<open>+\<close>, \<open>-\<close>,
  \<open>*\<close> and \<open>/\<close>: the exact result, rounded. A decimal literal of the source is its
  nearest double, \<open>ieee (1 / 5)\<close> for \<^verbatim>\<open>0.2\<close>.

  The gestures and inspector edits of the timeline, the caption window and the
  synchroniser are written with the machine's operations. The project duration and the
  functions that build caption cues are written with exact arithmetic and with the
  decimal value of their constants; what is proved of them below does not rest on how a
  sum or a quotient is rounded.

  A JavaScript string is the list of its UTF-16 code units; \<open>str\<close> embeds a literal.
\<close>

type_synonym number = rat

definition roundEven :: "rat \<Rightarrow> int" where
  \<comment> \<open>the nearest integer, a tie going to the even one\<close>
  "roundEven v =
     (let f = \<lfloor>v\<rfloor>; r = v - of_int f
      in if r < 1 / 2 then f
         else if 1 / 2 < r then f + 1
         else if even f then f else f + 1)"

definition ilog2 :: "rat \<Rightarrow> int" where
  \<comment> \<open>for \<open>r > 0\<close>, the exponent \<open>e\<close> with \<open>2 powi e \<le> r < 2 powi (e + 1)\<close>\<close>
  "ilog2 r =
     (let (p, d) = quotient_of r; b = bitlen p - bitlen d
      in if 2 powi b \<le> r then b else b - 1)"

definition subnormalStep :: rat where
  \<comment> \<open>the distance between two neighbouring subnormal doubles\<close>
  "subnormalStep = 2 powi (- 1074)"

definition ieee :: "rat \<Rightarrow> number" where
  "ieee v =
     (if v = 0 then 0
      else (let q = max (ilog2 \<bar>v\<bar> - 52) (- 1074)
            in of_int (roundEven (v / 2 powi q)) * 2 powi q))"

definition fadd :: "number \<Rightarrow> number \<Rightarrow> number" where
  "fadd a b = ieee (a + b)"

definition fsub :: "number \<Rightarrow> number \<Rightarrow> number" where
  "fsub a b = ieee (a - b)"

definition fmul :: "number \<Rightarrow> number \<Rightarrow> number" where
  "fmul a b = ieee (a * b)"

definition fdiv :: "number \<Rightarrow> number \<Rightarrow> number" where
  "fdiv a b = ieee (a / b)"

type_synonym jsstring = "nat list"

definition str :: "string \<Rightarrow> jsstring" where
  "str s = map of_char s"

definition Math_round :: "number \<Rightarrow> number" where
  \<comment> \<open>\<^verbatim>\<open>Math.round\<close>: the integer nearest to the number itself, a tie going up\<close>
  "Math_round x = of_int \<lfloor>x + 1 / 2\<rfloor>"

fun Math_max :: "number \<Rightarrow> number list \<Rightarrow> number" where
  \<comment> \<open>\<^verbatim>\<open>Math.max(...[x, ...xs])\<close> of a non-empty spread\<close>
  "Math_max x xs = fold max xs x"

definition IMAGE_DEFAULT_DURATION :: number where
  "IMAGE_DEFAULT_DURATION = 3"

definition PX_PER_SECOND :: number where
  "PX_PER_SECOND = 60"

definition MIN_CLIP_DURATION :: number where
  "MIN_CLIP_DURATION = ieee (1 / 5)"

definition CAPTION_WINDOW_WORD_COUNT :: nat where
  "CAPTION_WINDOW_WORD_COUNT = 3"

definition inRange :: "number \<Rightarrow> number \<Rightarrow> number \<Rightarrow> bool" where
  "inRange time start duration \<longleftrightarrow> time \<ge> start \<and> time < fadd start duration"

definition toStepTime :: "number \<Rightarrow> number" where
  "toStepTime v = fdiv (Math_round (fmul v 20)) 20"

fun findIndex :: "('a \<Rightarrow> bool) \<Rightarrow> 'a list \<Rightarrow> nat option" where
  \<comment> \<open>\<^verbatim>\<open>Array.prototype.findIndex\<close>; \<open>None\<close> is the source's \<open>-1\<close>\<close>
  "findIndex P [] = None"
| "findIndex P (x # xs) =
     (if P x then Some 0 else map_option Suc (findIndex P xs))"

fun updateFirst :: "('a \<Rightarrow> bool) \<Rightarrow> ('a \<Rightarrow> 'a) \<Rightarrow> 'a list \<Rightarrow> 'a list" where
  \<comment> \<open>in-place mutation of the element that \<^verbatim>\<open>Array.prototype.find\<close> returns\<close>
  "updateFirst P f [] = []"
| "updateFirst P f (x # xs) = (if P x then f x # xs else x # updateFirst P f xs)"

section \<open>Data model\<close>

datatype ClipKind = Video | Image | Audio

record Clip =
  id :: jsstring
  fileId :: jsstring
  name :: jsstring
  kind :: ClipKind
  start :: number
  duration :: number
  sourceOffset :: number
  sourceDuration :: number
  volume :: number
  muted :: bool
  previousVolume :: number
  url :: jsstring

record CaptionCue =
  id :: jsstring
  start :: number
  "end" :: number
  "text" :: jsstring

record CaptionWindowCue = CaptionCue +
  isActive :: bool
  activeProgress :: number

datatype OverlayKind = Title | Sticker

record OverlayItem =
  id :: jsstring
  kind :: OverlayKind
  "text" :: jsstring
  start :: number
  duration :: number
  x :: number
  y :: number
  size :: number
  color :: jsstring
  bg :: jsstring

datatype DragMode = Move | TrimLeft | TrimRight

record DragState =
  clipId :: jsstring
  mode :: DragMode
  pointerStartX :: number
  initialStart :: number
  initialDuration :: number
  initialSourceOffset :: number

text \<open>The reactive state of the page that the timeline functions read and write.\<close>

record Editor =
  currentTime :: number
  isPlaying :: bool
  clips :: "Clip list"
  captions :: "CaptionCue list"
  overlays :: "OverlayItem list"
  selectedClipId :: "jsstring option"
  selectedOverlayId :: "jsstring option"
  dragState :: "DragState option"

section \<open>Timeline model\<close>

definition visualClips :: "Editor \<Rightarrow> Clip list" where
  "visualClips ed =
     sort_key Clip.start
       (filter (\<lambda>clip. Clip.kind clip = Video \<or> Clip.kind clip = Image) (clips ed))"

definition audioClips :: "Editor \<Rightarrow> Clip list" where
  "audioClips ed =
     sort_key Clip.start (filter (\<lambda>clip. Clip.kind clip = Audio) (clips ed))"

definition projectDuration :: "Editor \<Rightarrow> number" where
  "projectDuration ed =
     (let clipEnd =
            (case map (\<lambda>clip. Clip.start clip + Clip.duration clip) (clips ed) of
               [] \<Rightarrow> 0
             | e # es \<Rightarrow> Math_max e es);
          overlayEnd =
            (case map (\<lambda>item. OverlayItem.start item + OverlayItem.duration item)
                    (overlays ed) of
               [] \<Rightarrow> 0
             | e # es \<Rightarrow> Math_max e es)
      in max clipEnd overlayEnd)"

definition selectedClip :: "Editor \<Rightarrow> Clip option" where
  \<comment> \<open>an empty id string is falsy, so it selects nothing\<close>
  "selectedClip ed =
     (case selectedClipId ed of
        None \<Rightarrow> None
      | Some sel \<Rightarrow>
          if sel = [] then None else find (\<lambda>clip. Clip.id clip = sel) (clips ed))"

definition selectClip :: "jsstring \<Rightarrow> Editor \<Rightarrow> Editor" where
  "selectClip i ed = ed\<lparr>selectedOverlayId := None, selectedClipId := Some i\<rparr>"

subsection \<open>Inspector edits\<close>

datatype ClipField = FieldStart | FieldDuration | FieldVolume | FieldSourceOffset

definition updateClipField :: "ClipField \<Rightarrow> number \<Rightarrow> Clip \<Rightarrow> Clip" where
  \<comment> \<open>the branches of \<^verbatim>\<open>updateSelectedClipField\<close> on the selected clip, \<open>parsed\<close> finite\<close>
  "updateClipField field parsed clip =
     (case field of
        FieldStart \<Rightarrow> clip\<lparr>Clip.start := max 0 parsed\<rparr>
      | FieldDuration \<Rightarrow>
          (let maxDuration =
                 (if Clip.kind clip = Image then max MIN_CLIP_DURATION parsed
                  else max MIN_CLIP_DURATION (fsub (sourceDuration clip) (sourceOffset clip)))
           in clip\<lparr>Clip.duration := min (max MIN_CLIP_DURATION parsed) maxDuration\<rparr>)
      | FieldSourceOffset \<Rightarrow>
          (if Clip.kind clip = Image then clip\<lparr>sourceOffset := 0\<rparr>
           else
             (let nextOffset =
                    max 0 (min parsed (fsub (sourceDuration clip) MIN_CLIP_DURATION));
                  clip1 = clip\<lparr>sourceOffset := nextOffset\<rparr>
              in clip1\<lparr>Clip.duration :=
                   min (Clip.duration clip1)
                     (max MIN_CLIP_DURATION
                        (fsub (sourceDuration clip1) (sourceOffset clip1)))\<rparr>))
      | FieldVolume \<Rightarrow>
          (let clip1 = clip\<lparr>volume := max 0 (min 2 parsed)\<rparr>
           in if Clip.kind clip1 = Video then
                (let clip2 = clip1\<lparr>muted := (volume clip1 = 0)\<rparr>
                 in if volume clip2 > 0 then clip2\<lparr>previousVolume := volume clip2\<rparr>
                    else clip2)
              else clip1))"

definition updateSelectedClipField :: "ClipField \<Rightarrow> number option \<Rightarrow> Editor \<Rightarrow> Editor" where
  \<comment> \<open>\<open>v\<close> is \<^verbatim>\<open>Number(value)\<close>, \<open>None\<close> when it is not finite; the forced
      synchronisation that ends the function writes media elements only, after the clip
      has been written\<close>
  "updateSelectedClipField field v ed =
     (case selectedClip ed of
        None \<Rightarrow> ed
      | Some sel \<Rightarrow>
          (case v of
             None \<Rightarrow> ed
           | Some parsed \<Rightarrow>
               ed\<lparr>clips :=
                    updateFirst (\<lambda>clip. Clip.id clip = Clip.id sel)
                      (updateClipField field parsed) (clips ed)\<rparr>))"

subsection \<open>Drag and trim gestures\<close>

definition startClipDrag :: "DragMode \<Rightarrow> Clip \<Rightarrow> int \<Rightarrow> number \<Rightarrow> Editor \<Rightarrow> Editor" where
  \<comment> \<open>\<open>button\<close> and \<open>clientX\<close> are the fields of the pointer event\<close>
  "startClipDrag m clip button clientX ed =
     (if button \<noteq> 0 then ed
      else (selectClip (Clip.id clip) ed)
             \<lparr>dragState := Some
                \<lparr>clipId = Clip.id clip,
                 mode = m,
                 pointerStartX = clientX,
                 initialStart = Clip.start clip,
                 initialDuration = Clip.duration clip,
                 initialSourceOffset = sourceOffset clip\<rparr>\<rparr>)"

definition dragClip :: "DragState \<Rightarrow> number \<Rightarrow> Clip \<Rightarrow> Clip" where
  \<comment> \<open>the body of \<^verbatim>\<open>onPointerMove\<close> once the dragged clip is found\<close>
  "dragClip ds clientX clip =
     (let deltaSec = toStepTime (fdiv (fsub clientX (pointerStartX ds)) PX_PER_SECOND) in
      if mode ds = Move then
        clip\<lparr>Clip.start := max 0 (toStepTime (fadd (initialStart ds) deltaSec))\<rparr>
      else if mode ds = TrimRight then
        (let maxDur =
               (if Clip.kind clip = Image then 120
                else max MIN_CLIP_DURATION (fsub (sourceDuration clip) (sourceOffset clip)))
         in clip\<lparr>Clip.duration :=
              min maxDur
                (max MIN_CLIP_DURATION (toStepTime (fadd (initialDuration ds) deltaSec)))\<rparr>)
      else if Clip.kind clip = Image then
        (let nextStart = max 0 (toStepTime (fadd (initialStart ds) deltaSec));
             startShift = fsub nextStart (initialStart ds)
         in clip\<lparr>Clip.start := nextStart,
                 Clip.duration :=
                   max MIN_CLIP_DURATION
                     (toStepTime (fsub (initialDuration ds) startShift))\<rparr>)
      else
        (let nextOffset =
               max 0 (min (fadd (initialSourceOffset ds) deltaSec)
                          (fsub (sourceDuration clip) MIN_CLIP_DURATION));
             sourceDelta = fsub nextOffset (initialSourceOffset ds)
         in clip\<lparr>sourceOffset := toStepTime nextOffset,
                 Clip.start := max 0 (toStepTime (fadd (initialStart ds) sourceDelta)),
                 Clip.duration :=
                   max MIN_CLIP_DURATION
                     (toStepTime (fsub (initialDuration ds) sourceDelta))\<rparr>))"

definition onPointerMove :: "number \<Rightarrow> Editor \<Rightarrow> Editor" where
  "onPointerMove clientX ed =
     (case dragState ed of
        None \<Rightarrow> ed
      | Some ds \<Rightarrow>
          (case find (\<lambda>item. Clip.id item = clipId ds) (clips ed) of
             None \<Rightarrow> ed\<lparr>dragState := None\<rparr>
           | Some found \<Rightarrow>
               ed\<lparr>clips :=
                    updateFirst (\<lambda>item. Clip.id item = clipId ds)
                      (dragClip ds clientX) (clips ed)\<rparr>))"

section \<open>Caption model\<close>

subsection \<open>Text normalisation\<close>

definition SPACE :: nat where
  "SPACE = 32"

definition is_space :: "nat \<Rightarrow> bool" where
  \<comment> \<open>the code units that \<^verbatim>\<open>\s\<close> matches and \<^verbatim>\<open>trim\<close> strips: white space and
      line terminators of ECMAScript\<close>
  "is_space c \<longleftrightarrow>
     (9 \<le> c \<and> c \<le> 13) \<or> c = 32 \<or> c = 160 \<or> c = 5760 \<or> (8192 \<le> c \<and> c \<le> 8202) \<or>
     c = 8232 \<or> c = 8233 \<or> c = 8239 \<or> c = 8287 \<or> c = 12288 \<or> c = 65279"

function replace_spaces :: "jsstring \<Rightarrow> jsstring" where
  \<comment> \<open>\<^verbatim>\<open>text.replace(/\s+/g, ' ')\<close>: every maximal run of white space becomes one space\<close>
  "replace_spaces [] = []"
| "replace_spaces (c # cs) =
     (if is_space c then SPACE # replace_spaces (dropWhile is_space cs)
      else c # replace_spaces cs)"
  by pat_completeness auto
termination
  by (relation "measure length") (auto simp: le_imp_less_Suc length_dropWhile_le)

definition trim :: "jsstring \<Rightarrow> jsstring" where
  "trim s = rev (dropWhile is_space (rev (dropWhile is_space s)))"

definition normalizeCaptionText :: "jsstring \<Rightarrow> jsstring" where
  "normalizeCaptionText t = trim (replace_spaces t)"

fun split :: "nat \<Rightarrow> jsstring \<Rightarrow> jsstring list" where
  \<comment> \<open>\<^verbatim>\<open>s.split(sep)\<close> for a separator of one code unit; the empty string gives one
      empty piece\<close>
  "split sep [] = [[]]"
| "split sep (c # cs) =
     (if c = sep then [] # split sep cs
      else (case split sep cs of
              [] \<Rightarrow> [[c]]
            | w # ws \<Rightarrow> (c # w) # ws))"

definition splitWords :: "jsstring \<Rightarrow> jsstring list" where
  \<comment> \<open>\<^verbatim>\<open>text.split(' ').filter(Boolean)\<close>\<close>
  "splitWords t = filter (\<lambda>w. w \<noteq> []) (split SPACE t)"

subsection \<open>Word cues of one span\<close>

definition wordCue ::
  "(nat \<Rightarrow> jsstring) \<Rightarrow> nat \<Rightarrow> number \<Rightarrow> number \<Rightarrow> number \<Rightarrow> nat \<Rightarrow> nat \<Rightarrow> jsstring \<Rightarrow> CaptionCue"
where
  \<comment> \<open>the callback of \<^verbatim>\<open>words.forEach\<close>; \<open>uuid (calls + index)\<close> is the value of
      this call of \<^verbatim>\<open>crypto.randomUUID()\<close>\<close>
  "wordCue uuid calls safeStart safeEnd wordDuration n index word =
     (let start = safeStart + wordDuration * of_nat index;
          end = (if index = n - 1 then safeEnd else min safeEnd (start + wordDuration))
      in \<lparr>CaptionCue.id = uuid (calls + index),
          start = start,
          end = max (start + 2 / 25) end,
          text = word\<rparr>)"

definition wordCues ::
  "(nat \<Rightarrow> jsstring) \<Rightarrow> nat \<Rightarrow> number \<Rightarrow> number \<Rightarrow> jsstring list \<Rightarrow> CaptionCue list"
where
  "wordCues uuid calls safeStart safeEnd words =
     (let spanDuration = max (1 / 5) (safeEnd - safeStart);
          wordDuration = spanDuration / of_nat (length words)
      in map (\<lambda>(index, word).
                wordCue uuid calls safeStart safeEnd wordDuration (length words) index word)
           (zip [0 ..< length words] words))"

subsection \<open>Cues from recognizer chunks\<close>

record AsrChunk =
  "text" :: "jsstring option"
  timestamp :: "(number option \<times> number option) option"

record CueLoop =
  cues :: "CaptionCue list"
  cursor :: number
  uuidCalls :: nat

definition chunkSpan :: "number \<Rightarrow> AsrChunk \<Rightarrow> number \<times> number" where
  \<comment> \<open>\<open>(safeStart, safeEnd)\<close> of a chunk, at the cursor it is reached with\<close>
  "chunkSpan cur chunk =
     (let (start, end) =
            (case timestamp chunk of
               Some ts \<Rightarrow> ts
             | None \<Rightarrow> (Some cur, Some (cur + 2)));
          safeStart = (case start of Some s \<Rightarrow> max 0 s | None \<Rightarrow> cur);
          safeEnd = (case end of Some e \<Rightarrow> max (safeStart + 1 / 5) e | None \<Rightarrow> safeStart + 2)
      in (safeStart, safeEnd))"

definition chunkText :: "AsrChunk \<Rightarrow> jsstring" where
  "chunkText chunk =
     normalizeCaptionText (case AsrChunk.text chunk of None \<Rightarrow> [] | Some t \<Rightarrow> t)"

definition buildStep :: "(nat \<Rightarrow> jsstring) \<Rightarrow> CueLoop \<Rightarrow> AsrChunk \<Rightarrow> CueLoop" where
  \<comment> \<open>one iteration of the loop over \<open>rawChunks\<close>\<close>
  "buildStep uuid st chunk =
     (let text = chunkText chunk in
      if text = [] then st
      else
        (let (safeStart, safeEnd) = chunkSpan (cursor st) chunk;
             words = splitWords text
         in if words = [] then st\<lparr>cursor := safeEnd\<rparr>
            else st\<lparr>cues := cues st @ wordCues uuid (uuidCalls st) safeStart safeEnd words,
                    cursor := safeEnd,
                    uuidCalls := uuidCalls st + length words\<rparr>))"

definition buildLoop :: "(nat \<Rightarrow> jsstring) \<Rightarrow> AsrChunk list \<Rightarrow> CueLoop" where
  "buildLoop uuid rawChunks =
     foldl (buildStep uuid) \<lparr>cues = [], cursor = 0, uuidCalls = 0\<rparr> rawChunks"

definition buildCaptionCues ::
  "(nat \<Rightarrow> jsstring) \<Rightarrow> AsrChunk list \<Rightarrow> number \<Rightarrow> CaptionCue list"
where
  \<comment> \<open>\<open>uuid k\<close> is what the \<open>k\<close>-th call of \<^verbatim>\<open>crypto.randomUUID()\<close> returns\<close>
  "buildCaptionCues uuid rawChunks fallbackDuration =
     (let st = buildLoop uuid rawChunks in
      if cues st = [] then
        [\<lparr>CaptionCue.id = uuid (uuidCalls st),
          start = 0,
          end = max 2 fallbackDuration,
          text = str ''No speech detected''\<rparr>]
      else cues st)"

subsection \<open>Cues read back from the store\<close>

text \<open>A persisted cue as \<^verbatim>\<open>restoreDraft\<close> hands it over: \<open>start\<close> and \<open>end\<close> are
  tested with \<^verbatim>\<open>Number.isFinite\<close>, so \<open>None\<close> is a non-finite value.\<close>

record StoredCaptionCue =
  id :: jsstring
  start :: "number option"
  "end" :: "number option"
  "text" :: jsstring

definition normalizeStep ::
  "(nat \<Rightarrow> jsstring) \<Rightarrow> CaptionCue list \<times> nat \<Rightarrow> StoredCaptionCue \<Rightarrow> CaptionCue list \<times> nat"
where
  \<comment> \<open>one iteration of the loop over \<open>rawCues\<close>; the state is \<open>normalized\<close> and the
      number of identifiers drawn so far\<close>
  "normalizeStep uuid st cue =
     (let (normalized, calls) = st;
          text = normalizeCaptionText (StoredCaptionCue.text cue);
          safeStart = (case StoredCaptionCue.start cue of Some s \<Rightarrow> max 0 s | None \<Rightarrow> 0);
          safeEnd = (case StoredCaptionCue.end cue of
                       Some e \<Rightarrow> max (safeStart + 1 / 5) e
                     | None \<Rightarrow> safeStart + 2);
          words = splitWords text
      in if length words \<le> 1 then
           (if text = [] then st
            else if StoredCaptionCue.id cue \<noteq> [] then
              (normalized @
                 [\<lparr>CaptionCue.id = StoredCaptionCue.id cue,
                   start = safeStart, end = safeEnd, text = text\<rparr>],
               calls)
            else
              (normalized @
                 [\<lparr>CaptionCue.id = uuid calls,
                   start = safeStart, end = safeEnd, text = text\<rparr>],
               calls + 1))
         else
           (normalized @ wordCues uuid calls safeStart safeEnd words,
            calls + length words))"

definition normalizeStoredCaptionCues ::
  "(nat \<Rightarrow> jsstring) \<Rightarrow> StoredCaptionCue list \<Rightarrow> CaptionCue list"
where
  "normalizeStoredCaptionCues uuid rawCues = fst (foldl (normalizeStep uuid) ([], 0) rawCues)"

subsection \<open>The caption window\<close>

definition getCaptionWindowForTime :: "number \<Rightarrow> CaptionCue list \<Rightarrow> CaptionWindowCue list" where
  \<comment> \<open>\<open>caps\<close> is \<^verbatim>\<open>captions.value\<close>\<close>
  "getCaptionWindowForTime time caps =
     (case findIndex
             (\<lambda>cue. inRange time (CaptionCue.start cue)
                       (fsub (CaptionCue.end cue) (CaptionCue.start cue))) caps of
        None \<Rightarrow> []
      | Some activeIndex \<Rightarrow>
          (let total = length caps;
               start = (activeIndex div CAPTION_WINDOW_WORD_COUNT) * CAPTION_WINDOW_WORD_COUNT;
               end = min total (start + CAPTION_WINDOW_WORD_COUNT);
               slice = take (end - start) (drop start caps)
           in map (\<lambda>(index, cue).
                     CaptionCue.extend cue
                       \<lparr>isActive = (start + index = activeIndex),
                        activeProgress =
                          (if start + index = activeIndex then
                             min 1 (max 0
                               (fdiv (fsub time (CaptionCue.start cue))
                                  (max (ieee (1 / 1000))
                                     (fsub (CaptionCue.end cue) (CaptionCue.start cue)))))
                           else 0)\<rparr>)
                (zip [0 ..< length slice] slice)))"

section \<open>Playback synchroniser\<close>

text \<open>
  A media element of the page, as far as the synchroniser uses it: the three properties
  it reads or writes, and \<open>ops\<close>, the writes and calls issued on the element so far
  (oldest first). Assigning \<^verbatim>\<open>volume\<close> a value outside [0, 1] throws
  \<^verbatim>\<open>IndexSizeError\<close> and leaves the element as it was; the synchroniser does not catch
  it, so the exception ends the pass. Assigning \<^verbatim>\<open>currentTime\<close> is taken to set the
  position to the value written, and \<^verbatim>\<open>play()\<close> to succeed (the source swallows its
  rejection).
\<close>

datatype MediaOp = SetVolume number | SetCurrentTime number | Play | Pause

datatype DOMException = IndexSizeError

record MediaElement =
  currentTime :: number
  volume :: number
  paused :: bool
  ops :: "MediaOp list"

record Media =
  visualVideoRefs :: "jsstring \<rightharpoonup> MediaElement"
  audioRefs :: "jsstring \<rightharpoonup> MediaElement"

definition getOutputVolume :: "Clip \<Rightarrow> number" where
  "getOutputVolume clip =
     (if Clip.kind clip = Video \<and> muted clip then 0 else Clip.volume clip)"

definition setVolume :: "number \<Rightarrow> MediaElement \<Rightarrow> DOMException + MediaElement" where
  \<comment> \<open>the assignment \<^verbatim>\<open>element.volume = v\<close>\<close>
  "setVolume v element =
     (if 0 \<le> v \<and> v \<le> 1 then
        Inr (element\<lparr>MediaElement.volume := v, ops := ops element @ [SetVolume v]\<rparr>)
      else Inl IndexSizeError)"

definition safePlay :: "MediaElement \<Rightarrow> MediaElement" where
  "safePlay element = element\<lparr>paused := False, ops := ops element @ [Play]\<rparr>"

definition pause :: "MediaElement \<Rightarrow> MediaElement" where
  "pause element = element\<lparr>paused := True, ops := ops element @ [Pause]\<rparr>"

definition syncElement ::
  "bool \<Rightarrow> bool \<Rightarrow> number \<Rightarrow> Clip \<Rightarrow> MediaElement \<Rightarrow> DOMException + MediaElement"
where
  \<comment> \<open>the loop body that both loops of \<^verbatim>\<open>syncPreviewMedia\<close> run on a clip's element\<close>
  "syncElement forceSeek playing timelineTime clip element =
     (case setVolume (getOutputVolume clip) element of
        Inl exception \<Rightarrow> Inl exception
      | Inr e1 \<Rightarrow>
          Inr (if inRange timelineTime (Clip.start clip) (Clip.duration clip) then
                 (let localTime =
                        fadd (fsub timelineTime (Clip.start clip)) (sourceOffset clip);
                      e2 = (if forceSeek \<or>
                               \<bar>fsub (MediaElement.currentTime e1) localTime\<bar> > ieee (1 / 5)
                            then e1\<lparr>MediaElement.currentTime := localTime,
                                    ops := ops e1 @ [SetCurrentTime localTime]\<rparr>
                            else e1)
                  in if playing then safePlay e2 else pause e2)
               else pause e1))"

text \<open>The state of a loop over clips: the elements, and the exception once one is thrown.
  After a throw the remaining clips are not visited.\<close>

type_synonym syncLoop = "(jsstring \<rightharpoonup> MediaElement) \<times> DOMException option"

definition syncVisual :: "bool \<Rightarrow> bool \<Rightarrow> number \<Rightarrow> syncLoop \<Rightarrow> Clip \<Rightarrow> syncLoop" where
  "syncVisual forceSeek playing timelineTime st clip =
     (let (refs, thrown) = st in
      if thrown \<noteq> None then st
      else if Clip.kind clip \<noteq> Video then st
      else (case refs (Clip.id clip) of
              None \<Rightarrow> st
            | Some element \<Rightarrow>
                (case syncElement forceSeek playing timelineTime clip element of
                   Inl exception \<Rightarrow> (refs, Some exception)
                 | Inr element' \<Rightarrow> (refs(Clip.id clip \<mapsto> element'), None))))"

definition syncAudio :: "bool \<Rightarrow> bool \<Rightarrow> number \<Rightarrow> syncLoop \<Rightarrow> Clip \<Rightarrow> syncLoop" where
  "syncAudio forceSeek playing timelineTime st clip =
     (let (refs, thrown) = st in
      if thrown \<noteq> None then st
      else (case refs (Clip.id clip) of
              None \<Rightarrow> st
            | Some element \<Rightarrow>
                (case syncElement forceSeek playing timelineTime clip element of
                   Inl exception \<Rightarrow> (refs, Some exception)
                 | Inr element' \<Rightarrow> (refs(Clip.id clip \<mapsto> element'), None))))"

definition syncPreviewMedia :: "bool \<Rightarrow> Editor \<Rightarrow> Media \<Rightarrow> Media \<times> DOMException option" where
  \<comment> \<open>the media elements after the pass, and the exception that ended it, if any\<close>
  "syncPreviewMedia forceSeek ed media =
     (let timelineTime = Editor.currentTime ed;
          (visual, thrown) =
            foldl (syncVisual forceSeek (isPlaying ed) timelineTime)
              (visualVideoRefs media, None) (visualClips ed)
      in if thrown \<noteq> None then
           (\<lparr>visualVideoRefs = visual, audioRefs = audioRefs media\<rparr>, thrown)
         else
           (let (audio, thrown') =
                  foldl (syncAudio forceSeek (isPlaying ed) timelineTime)
                    (audioRefs media, None) (audioClips ed)
            in (\<lparr>visualVideoRefs = visual, audioRefs = audio\<rparr>, thrown')))"

section \<open>Export: conversion of the recording\<close>

type_synonym bytes = "8 word list"

datatype Error = Error jsstring

record Blob =
  content :: bytes
  type :: jsstring

definition blobSize :: "Blob \<Rightarrow> nat" where
  \<comment> \<open>\<^verbatim>\<open>blob.size\<close>\<close>
  "blobSize blob = length (content blob)"

record HttpRequest =
  path :: jsstring
  "method" :: jsstring
  headers :: "(jsstring \<times> jsstring) list"
  body :: bytes

text \<open>A response: its status, what \<^verbatim>\<open>response.text()\<close> resolves to (the body decoded
  as text) and what \<^verbatim>\<open>response.arrayBuffer()\<close> resolves to (the bytes of the body).\<close>

record HttpResponse =
  status :: nat
  responseText :: jsstring
  payload :: bytes

text \<open>What the awaited, timed \<^verbatim>\<open>fetch\<close> can come to: a response, the timer of
  \<^verbatim>\<open>withTimeout\<close> firing first, or the request rejecting with a message.\<close>

datatype FetchOutcome = Responded HttpResponse | TimedOut | Rejected jsstring

function showNat :: "nat \<Rightarrow> jsstring" where
  \<comment> \<open>the decimal digits of a status code in a template string\<close>
  "showNat n = (if n < 10 then [48 + n] else showNat (n div 10) @ [48 + n mod 10])"
  by pat_completeness auto
termination
  by (relation "measure (\<lambda>n. n)") auto

definition ok :: "HttpResponse \<Rightarrow> bool" where
  "ok response \<longleftrightarrow> 200 \<le> status response \<and> status response \<le> 299"

definition convertWebmToMp4 ::
  "(HttpRequest \<Rightarrow> FetchOutcome) \<Rightarrow> Blob \<Rightarrow> HttpRequest list \<times> (Error + Blob)"
where
  \<comment> \<open>\<open>network\<close> answers a request; the first component of the result lists the
      requests sent. In the branch of a failed response every path of the source's
      \<^verbatim>\<open>try\<close>/\<^verbatim>\<open>catch\<close> ends in the throw of the \<^verbatim>\<open>catch\<close> block\<close>
  "convertWebmToMp4 network webmBlob =
     (if blobSize webmBlob = 0 then
        ([], Inl (Error (str
           ''Rendered video buffer is empty. Please add at least one playable clip and retry.'')))
      else
        (let request =
               \<lparr>path = str ''/api/export-mp4'',
                method = str ''POST'',
                headers = [(str ''content-type'', str ''video/webm'')],
                body = content webmBlob\<rparr>
         in case network request of
              TimedOut \<Rightarrow> ([request], Inl (Error (str ''Timed out converting to MP4'')))
            | Rejected message \<Rightarrow> ([request], Inl (Error message))
            | Responded response \<Rightarrow>
                if \<not> ok response then
                  ([request],
                   Inl (Error
                     (if responseText response \<noteq> [] then responseText response
                      else str ''Export API failed: '' @ showNat (status response))))
                else
                  ([request],
                   Inr \<lparr>content = payload response, type = str ''video/mp4''\<rparr>)))"

subsection \<open>The conversion endpoint of the server\<close>

datatype HandlerError = HttpError nat jsstring | Unhandled jsstring

datatype ServerEffect =
    MakeTempDir
  | WriteInput bytes
  | RunFfmpeg jsstring
  | ReadOutput
  | RemoveTempDir

text \<open>How the spawned transcoder ends: exit code 0 leaving the output file, another exit
  code with what it wrote to \<^verbatim>\<open>stderr\<close>, or the process failing to start.\<close>

datatype FfmpegOutcome = Exited0 bytes | ExitedWith int jsstring | SpawnFailed jsstring

definition exportMp4Handler ::
  "jsstring option \<Rightarrow> (bytes \<Rightarrow> FfmpegOutcome) \<Rightarrow> bytes list \<Rightarrow>
     ServerEffect list \<times> (HandlerError + bytes)"
where
  \<comment> \<open>the event handler of the unnamed server file that serves \<^verbatim>\<open>/api/export-mp4\<close>:
      \<open>ffmpegStatic\<close> is the path of the bundled binary, \<open>chunks\<close> the request body as
      it arrives; the first component of the result lists the file-system and process
      effects in order\<close>
  "exportMp4Handler ffmpegStatic ffmpeg chunks =
     (let input = concat chunks in
      if length input = 0 then
        ([], Inl (HttpError 400 (str ''Missing video payload'')))
      else
        (case ffmpegStatic of
           None \<Rightarrow> ([], Inl (HttpError 500 (str ''ffmpeg binary unavailable'')))
         | Some ffmpegPath \<Rightarrow>
             (case ffmpeg input of
                Exited0 output \<Rightarrow>
                  ([MakeTempDir, WriteInput input, RunFfmpeg ffmpegPath, ReadOutput,
                    RemoveTempDir],
                   Inr output)
              | ExitedWith code stderr \<Rightarrow>
                  ([MakeTempDir, WriteInput input, RunFfmpeg ffmpegPath, RemoveTempDir],
                   Inl (Unhandled
                     (if stderr \<noteq> [] then stderr
                      else str ''ffmpeg exited with code '' @
                           (if code < 0 then str ''-'' else []) @ showNat (nat \<bar>code\<bar>))))
              | SpawnFailed message \<Rightarrow>
                  ([MakeTempDir, WriteInput input, RunFfmpeg ffmpegPath, RemoveTempDir],
                   Inl (Unhandled message)))))"

section \<open>Example states\<close>

text \<open>The clip that \<^verbatim>\<open>importMedia\<close> appends for a first video of 10.03 seconds, a
  title overlay added at time 2, and an editor holding both.\<close>

definition importedClip :: Clip where
  "importedClip =
     \<lparr>Clip.id = str ''clip-1'', fileId = str ''file-1'', name = str ''take.mp4'',
      kind = Video, start = 0, duration = 1003 / 100, sourceOffset = 0,
      sourceDuration = 1003 / 100, volume = 1, muted = False, previousVolume = 1,
      url = str ''blob:1''\<rparr>"

definition titleOverlay :: OverlayItem where
  "titleOverlay =
     \<lparr>OverlayItem.id = str ''overlay-1'', kind = Title, text = str ''Your title here'',
      start = 2, duration = 5 / 2, x = 50, y = 20, size = 52, color = str ''#FFFFFF'',
      bg = str ''rgba(0,0,0,0.35)''\<rparr>"

definition exampleEditor :: Editor where
  "exampleEditor =
     \<lparr>Editor.currentTime = 0, isPlaying = False, clips = [importedClip], captions = [],
      overlays = [titleOverlay], selectedClipId = None, selectedOverlayId = None,
      dragState = None\<rparr>"

text \<open>The clip that \<^verbatim>\<open>importMedia\<close> creates for a video whose element reports a
  duration of 10.03 seconds, the double nearest to 10.03; the editor with that clip alone
  on the timeline; and the drag state that \<^verbatim>\<open>startClipDrag\<close> records when the left
  trim handle of the clip is pressed at pointer position 0. Then the same for a clip of
  10 seconds.\<close>

definition recordedClip :: Clip where
  "recordedClip =
     importedClip\<lparr>Clip.duration := ieee (1003 / 100), sourceDuration := ieee (1003 / 100)\<rparr>"

definition recordedEditor :: Editor where
  "recordedEditor = exampleEditor\<lparr>clips := [recordedClip]\<rparr>"

definition recordedTrimLeft :: DragState where
  "recordedTrimLeft =
     \<lparr>clipId = Clip.id recordedClip, mode = TrimLeft, pointerStartX = 0,
      initialStart = Clip.start recordedClip, initialDuration = Clip.duration recordedClip,
      initialSourceOffset = sourceOffset recordedClip\<rparr>"

definition steppedClip :: Clip where
  "steppedClip = importedClip\<lparr>Clip.duration := 10, sourceDuration := 10\<rparr>"

definition steppedTrimLeft :: DragState where
  "steppedTrimLeft =
     \<lparr>clipId = Clip.id steppedClip, mode = TrimLeft, pointerStartX = 0,
      initialStart = Clip.start steppedClip, initialDuration = Clip.duration steppedClip,
      initialSourceOffset = sourceOffset steppedClip\<rparr>"

text \<open>A clip that starts at 0.1 and shows the whole of a source of 0.7 seconds, both on
  the grid of the step, and the drag state of its left trim handle.\<close>

definition shortClip :: Clip where
  "shortClip =
     importedClip\<lparr>Clip.start := ieee (1 / 10), Clip.duration := ieee (7 / 10),
                   sourceDuration := ieee (7 / 10)\<rparr>"

definition shortTrimLeft :: DragState where
  "shortTrimLeft =
     \<lparr>clipId = Clip.id shortClip, mode = TrimLeft, pointerStartX = 0,
      initialStart = Clip.start shortClip, initialDuration = Clip.duration shortClip,
      initialSourceOffset = sourceOffset shortClip\<rparr>"

text \<open>Recognizer output: the three chunks of a short utterance with a silent chunk in
  the middle, and a list of chunks without any word. \<open>exampleUuid\<close> is one possible
  sequence of generated identifiers.\<close>

definition spokenChunks :: "AsrChunk list" where
  "spokenChunks =
     [\<lparr>AsrChunk.text = Some (str ''hello world''), timestamp = Some (Some 0, Some 2)\<rparr>,
      \<lparr>AsrChunk.text = Some (str ''''), timestamp = Some (Some 2, Some 3)\<rparr>,
      \<lparr>AsrChunk.text = Some (str ''goodbye''), timestamp = Some (Some 3, Some 4)\<rparr>]"

definition silentChunks :: "AsrChunk list" where
  "silentChunks =
     [\<lparr>AsrChunk.text = Some (str ''  ''), timestamp = Some (Some 2, Some 3)\<rparr>,
      \<lparr>AsrChunk.text = None, timestamp = None\<rparr>]"

definition exampleUuid :: "nat \<Rightarrow> jsstring" where
  "exampleUuid k = str ''uuid-'' @ showNat k"

definition untimedChunk :: AsrChunk where
  "untimedChunk = \<lparr>AsrChunk.text = Some (str ''goodbye''), timestamp = None\<rparr>"

text \<open>A cue as \<^verbatim>\<open>saveDraft\<close> writes it into the project document; a chunk of
  three words spoken in 0.3 seconds; and two stored one-word cues, the second without an
  identifier and with white space around its word.\<close>

definition storedCaption :: "CaptionCue \<Rightarrow> StoredCaptionCue" where
  "storedCaption caption =
     \<lparr>StoredCaptionCue.id = CaptionCue.id caption,
      start = Some (CaptionCue.start caption),
      end = Some (CaptionCue.end caption),
      text = CaptionCue.text caption\<rparr>"

definition quickChunks :: "AsrChunk list" where
  "quickChunks =
     [\<lparr>AsrChunk.text = Some (str ''a b c''), timestamp = Some (Some 0, Some (3 / 10))\<rparr>]"

definition storedWords :: "StoredCaptionCue list" where
  "storedWords =
     [\<lparr>StoredCaptionCue.id = str ''cue-1'', start = Some 0, end = Some 1,
       text = str ''hello''\<rparr>,
      \<lparr>StoredCaptionCue.id = [], start = Some 1, end = Some 2,
       text = str '' world ''\<rparr>]"

text \<open>Four one-word cues, with a silence between the second and the third; and two
  one-word cues of which the second starts at the double where the first ends, 0.9.\<close>

definition exampleCaptions :: "CaptionCue list" where
  "exampleCaptions =
     [\<lparr>CaptionCue.id = exampleUuid 0, start = 0, end = 1, text = str ''hello''\<rparr>,
      \<lparr>CaptionCue.id = exampleUuid 1, start = 1, end = 2, text = str ''world''\<rparr>,
      \<lparr>CaptionCue.id = exampleUuid 2, start = 3, end = 4, text = str ''goodbye''\<rparr>,
      \<lparr>CaptionCue.id = exampleUuid 3, start = 4, end = 5, text = str ''again''\<rparr>]"

definition adjacentCaptions :: "CaptionCue list" where
  "adjacentCaptions =
     [\<lparr>CaptionCue.id = str ''cue-1'', start = ieee (3 / 10), end = ieee (9 / 10),
       text = str ''hello''\<rparr>,
      \<lparr>CaptionCue.id = str ''cue-2'', start = ieee (9 / 10), end = ieee (3 / 2),
       text = str ''world''\<rparr>]"

text \<open>The element that the page registers for a clip: a \<^verbatim>\<open>video\<close> tag in
  \<^verbatim>\<open>visualVideoRefs\<close> for a video clip, an \<^verbatim>\<open>audio\<close> tag in \<^verbatim>\<open>audioRefs\<close> for an
  audio clip, none for an image. Then the editor of the recorded clip while it plays at
  time 3 and at time 20, past the end of the clip, and the media elements when the video
  tag reports a given position.\<close>

definition clipElement :: "Media \<Rightarrow> Clip \<Rightarrow> MediaElement option" where
  "clipElement media clip =
     (case Clip.kind clip of
        Video \<Rightarrow> visualVideoRefs media (Clip.id clip)
      | Audio \<Rightarrow> audioRefs media (Clip.id clip)
      | Image \<Rightarrow> None)"

definition playingEditor :: Editor where
  "playingEditor = recordedEditor\<lparr>Editor.currentTime := 3, isPlaying := True\<rparr>"

definition finishedEditor :: Editor where
  "finishedEditor = recordedEditor\<lparr>Editor.currentTime := 20, isPlaying := True\<rparr>"

definition mediaAt :: "number \<Rightarrow> Media" where
  "mediaAt position =
     \<lparr>visualVideoRefs =
        [Clip.id recordedClip \<mapsto>
           \<lparr>MediaElement.currentTime = position, volume = 1, paused = False, ops = []\<rparr>],
      audioRefs = Map.empty\<rparr>"

text \<open>The same two editors after the clip has been selected and the volume field of the
  inspector (\<^verbatim>\<open>Volume (0 - 2)\<close>) set to 1.5.\<close>

definition amplified :: "Editor \<Rightarrow> Editor" where
  "amplified ed =
     updateSelectedClipField FieldVolume (Some (3 / 2)) (selectClip (Clip.id recordedClip) ed)"

text \<open>An empty recording, a network that cannot be reached and a transcoder that rejects
  its input.\<close>

definition emptyRecording :: Blob where
  "emptyRecording = \<lparr>content = [], type = str ''video/webm''\<rparr>"

definition unreachableNetwork :: "HttpRequest \<Rightarrow> FetchOutcome" where
  "unreachableNetwork request = Rejected (str ''Failed to fetch'')"

definition brokenFfmpeg :: "bytes \<Rightarrow> FfmpegOutcome" where
  "brokenFfmpeg input = ExitedWith 1 (str ''Invalid data found when processing input'')"

section \<open>Project duration\<close>

lemma Math_max_Max: "Math_max e es = Max (set (e # es))"
  using Max.set_eq_fold[of e es] by simp

text \<open>
  Claim C1. \<open>projectDuration\<close> is the largest end time \<open>start + duration\<close> over all
  clips and all overlays, and 0 when there are neither. Clips and overlays are those of
  the data model, whose end times are not negative (every path of the editor that writes
  a start clamps it at 0 and every duration it writes is positive).
\<close>

theorem projectDuration_is_max:
  assumes "\<forall>clip \<in> set (clips ed). 0 \<le> Clip.start clip + Clip.duration clip"
    and "\<forall>item \<in> set (overlays ed). 0 \<le> OverlayItem.start item + OverlayItem.duration item"
  shows "projectDuration ed =
     (if clips ed = [] \<and> overlays ed = [] then 0
      else Max ((\<lambda>clip. Clip.start clip + Clip.duration clip) ` set (clips ed) \<union>
                (\<lambda>item. OverlayItem.start item + OverlayItem.duration item) ` set (overlays ed)))"
proof (cases "clips ed")
  case Nil
  note c = Nil
  show ?thesis
  proof (cases "overlays ed")
    case Nil
    with c show ?thesis by (simp add: projectDuration_def)
  next
    case (Cons item items)
    let ?E = "(\<lambda>item. OverlayItem.start item + OverlayItem.duration item) ` set (overlays ed)"
    have "0 \<le> OverlayItem.start item + OverlayItem.duration item"
      using assms(2) Cons by simp
    moreover have "OverlayItem.start item + OverlayItem.duration item \<le> Max ?E"
      using Cons by (intro Max_ge) auto
    ultimately have "0 \<le> Max ?E" by linarith
    moreover have "projectDuration ed = max 0 (Max ?E)"
      using c Cons by (simp add: projectDuration_def del: Math_max.simps add: Math_max_Max)
    ultimately show ?thesis using c Cons by simp
  qed
next
  case (Cons clip rest)
  note c = Cons
  let ?C = "(\<lambda>clip. Clip.start clip + Clip.duration clip) ` set (clips ed)"
  have finC: "finite ?C" and neC: "?C \<noteq> {}" using c by auto
  show ?thesis
  proof (cases "overlays ed")
    case Nil
    have "0 \<le> Clip.start clip + Clip.duration clip" using assms(1) c by simp
    moreover have "Clip.start clip + Clip.duration clip \<le> Max ?C"
      using c by (intro Max_ge) auto
    ultimately have "0 \<le> Max ?C" by linarith
    moreover have "projectDuration ed = max (Max ?C) 0"
      using c Nil by (simp add: projectDuration_def del: Math_max.simps add: Math_max_Max)
    ultimately show ?thesis using c Nil by simp
  next
    case (Cons item items)
    let ?E = "(\<lambda>item. OverlayItem.start item + OverlayItem.duration item) ` set (overlays ed)"
    have finE: "finite ?E" and neE: "?E \<noteq> {}" using Cons by auto
    have "projectDuration ed = max (Max ?C) (Max ?E)"
      using c Cons by (simp add: projectDuration_def del: Math_max.simps add: Math_max_Max)
    also have "\<dots> = Max (?C \<union> ?E)"
      using Max_Un[OF finC neC finE neE] by simp
    finally show ?thesis using c by simp
  qed
qed

theorem projectDuration_is_max_witness:
  "0 \<le> Clip.start importedClip + Clip.duration importedClip \<and>
   0 \<le> OverlayItem.start titleOverlay + OverlayItem.duration titleOverlay \<and>
   clips exampleEditor = [importedClip] \<and> overlays exampleEditor = [titleOverlay] \<and>
   projectDuration exampleEditor = 1003 / 100"
proof -
  have h1: "\<forall>clip \<in> set (clips exampleEditor). 0 \<le> Clip.start clip + Clip.duration clip"
    by (simp add: exampleEditor_def importedClip_def)
  have h2: "\<forall>item \<in> set (overlays exampleEditor).
      0 \<le> OverlayItem.start item + OverlayItem.duration item"
    by (simp add: exampleEditor_def titleOverlay_def)
  show ?thesis
    using h1 h2 projectDuration_is_max[OF h1 h2]
    by (simp add: exampleEditor_def importedClip_def titleOverlay_def)
qed

section \<open>Rounding to a double\<close>

text \<open>The result of a machine operation is within half a unit in the last place of the
  exact result: a relative error of at most \<open>1 / 2 ^ 53\<close>, or half a subnormal step for
  the smallest numbers.\<close>

lemma subnormalStep_pos: "0 < subnormalStep"
  unfolding subnormalStep_def by (rule zero_less_power_int) simp

lemma subnormalStep_small: "subnormalStep \<le> 1 / 2 ^ 60"
proof -
  have "(2::rat) powi (- 1074) \<le> 2 powi (- 60)"
    by (rule power_int_increasing) simp_all
  also have "\<dots> = 1 / 2 ^ 60" by (simp add: power_int_minus_divide)
  finally show ?thesis unfolding subnormalStep_def .
qed

lemma roundEven_near: "\<bar>of_int (roundEven v) - v\<bar> \<le> 1 / 2"
proof -
  have l: "of_int \<lfloor>v\<rfloor> \<le> v" by (rule of_int_floor_le)
  have u: "v < of_int \<lfloor>v\<rfloor> + 1" using floor_correct[of v] by simp
  show ?thesis
    using l u by (auto simp: roundEven_def Let_def abs_le_iff)
qed

lemma ilog2_le:
  assumes "0 < r"
  shows "2 powi (ilog2 r) \<le> r"
proof -
  obtain p d where pd: "quotient_of r = (p, d)" by (cases "quotient_of r")
  have d: "0 < d" using quotient_of_denom_pos[OF pd] .
  have r: "r = of_int p / of_int d" using quotient_of_div[OF pd] .
  have p: "0 < p" using assms d r by (simp add: zero_less_divide_iff)
  let ?b = "bitlen p - bitlen d"
  show ?thesis
  proof (cases "2 powi ?b \<le> r")
    case True
    then show ?thesis by (simp add: ilog2_def pd)
  next
    case False
    have bp: "1 \<le> bitlen p" using p by (simp add: bitlen_alt_def)
    have bd: "0 \<le> bitlen d" by (rule bitlen_nonneg)
    have lo: "(2::int) ^ nat (bitlen p - 1) \<le> p" using bitlen_bounds[OF p] by simp
    have hi: "d \<le> 2 ^ nat (bitlen d)" using bitlen_bounds[OF d] by simp
    have lo': "(2::rat) ^ nat (bitlen p - 1) \<le> of_int p"
      using lo by (metis of_int_le_iff of_int_numeral of_int_power)
    have hi': "(of_int d :: rat) \<le> 2 ^ nat (bitlen d)"
      using hi by (metis of_int_le_iff of_int_numeral of_int_power)
    have "(2::rat) powi (?b - 1) = 2 powi ((bitlen p - 1) - bitlen d)" by (simp add: algebra_simps)
    also have "\<dots> = 2 powi (bitlen p - 1) / 2 powi (bitlen d)"
      by (rule power_int_diff) simp
    also have "\<dots> = 2 ^ nat (bitlen p - 1) / 2 ^ nat (bitlen d)"
      using bp bd by (simp add: power_int_def)
    also have "\<dots> \<le> of_int p / of_int d"
      using lo' hi' d p by (intro frac_le) simp_all
    finally have "(2::rat) powi (?b - 1) \<le> r" using r by simp
    then show ?thesis using False by (simp add: ilog2_def pd)
  qed
qed

lemma ieee_near: "\<bar>ieee v - v\<bar> \<le> \<bar>v\<bar> / 2 ^ 53 + subnormalStep / 2"
proof (cases "v = 0")
  case True
  then show ?thesis using subnormalStep_pos by (simp add: ieee_def)
next
  case False
  define e where "e = ilog2 \<bar>v\<bar>"
  define q where "q = max (e - 52) (- 1074)"
  define P :: rat where "P = 2 powi q"
  define m where "m = roundEven (v / P)"
  have Ppos: "0 < P" by (simp add: P_def)
  have iv: "ieee v = of_int m * P"
    using False by (simp add: ieee_def Let_def e_def q_def P_def m_def)
  have "ieee v - v = (of_int m - v / P) * P" using Ppos by (simp add: iv field_simps)
  then have "\<bar>ieee v - v\<bar> = \<bar>of_int m - v / P\<bar> * P" using Ppos by (simp add: abs_mult)
  also have "\<dots> \<le> (1 / 2) * P"
    using roundEven_near[of "v / P"] Ppos unfolding m_def by (intro mult_right_mono) simp_all
  finally have half: "\<bar>ieee v - v\<bar> \<le> P / 2" by simp
  have "P \<le> \<bar>v\<bar> / 2 ^ 52 \<or> P = subnormalStep"
  proof (cases "- 1074 \<le> e - 52")
    case True
    then have "q = e - 52" by (simp add: q_def)
    then have "P = 2 powi e / 2 powi 52" unfolding P_def by (simp add: power_int_diff)
    moreover have "2 powi e \<le> \<bar>v\<bar>" unfolding e_def using False by (intro ilog2_le) simp
    ultimately show ?thesis by (simp add: divide_right_mono)
  next
    case False
    then have "q = - 1074" by (simp add: q_def)
    then have "P = subnormalStep" by (simp only: P_def subnormalStep_def)
    then show ?thesis by (rule disjI2)
  qed
  then show ?thesis
  proof
    assume "P \<le> \<bar>v\<bar> / 2 ^ 52"
    then have "P / 2 \<le> \<bar>v\<bar> / 2 ^ 53" by simp
    with half have "\<bar>ieee v - v\<bar> \<le> \<bar>v\<bar> / 2 ^ 53" by (rule order_trans)
    then show ?thesis using subnormalStep_pos by linarith
  next
    assume "P = subnormalStep"
    with half have "\<bar>ieee v - v\<bar> \<le> subnormalStep / 2" by simp
    moreover have "0 \<le> \<bar>v\<bar> / 2 ^ 53" by simp
    ultimately show ?thesis by linarith
  qed
qed

lemma pow2_rat:
  "(2::rat) ^ 20 = 1048576" "(2::rat) ^ 21 = 2097152" "(2::rat) ^ 22 = 4194304"
  "(2::rat) ^ 23 = 8388608" "(2::rat) ^ 24 = 16777216" "(2::rat) ^ 26 = 67108864"
  "(2::rat) ^ 27 = 134217728" "(2::rat) ^ 28 = 268435456" "(2::rat) ^ 29 = 536870912"
  "(2::rat) ^ 30 = 1073741824"
  "(2::rat) ^ 53 = 9007199254740992" "(2::rat) ^ 61 = 2305843009213693952"
  by simp_all

lemma ieee_err:
  assumes "\<bar>v\<bar> \<le> M"
  shows "\<bar>ieee v - v\<bar> \<le> M / 2 ^ 53 + 1 / 2 ^ 61"
proof -
  have "\<bar>v\<bar> / 2 ^ 53 \<le> M / 2 ^ 53" using assms by (simp add: divide_right_mono)
  moreover have "subnormalStep / 2 \<le> 1 / 2 ^ 61" using subnormalStep_small by simp
  ultimately show ?thesis using ieee_near[of v] by linarith
qed

lemma roundEven_nonneg: "0 \<le> v \<Longrightarrow> 0 \<le> roundEven v"
  by (simp add: roundEven_def Let_def)

lemma ieee_nonneg: "0 \<le> v \<Longrightarrow> 0 \<le> ieee v"
  by (simp add: ieee_def Let_def roundEven_nonneg)

lemma Math_round_near: "\<bar>Math_round v - v\<bar> \<le> 1 / 2"
proof -
  have l: "of_int \<lfloor>v + 1 / 2\<rfloor> \<le> v + 1 / 2" by (rule of_int_floor_le)
  have u: "v + 1 / 2 < of_int \<lfloor>v + 1 / 2\<rfloor> + 1" using floor_correct[of "v + 1 / 2"] by simp
  show ?thesis unfolding Math_round_def using l u by linarith
qed

lemma toStepTime_err:
  assumes "\<bar>v\<bar> \<le> 2 ^ 24"
  shows "\<bar>toStepTime v - v\<bar> \<le> 1 / 40 + 1 / 2 ^ 26"
proof -
  define y where "y = fmul v 20"
  define r where "r = Math_round y"
  have "\<bar>v * 20\<bar> \<le> 20 * 2 ^ 24" using assms by (simp add: abs_mult)
  then have "\<bar>ieee (v * 20) - v * 20\<bar> \<le> (20 * 2 ^ 24) / 2 ^ 53 + 1 / 2 ^ 61" by (rule ieee_err)
  then have y: "\<bar>y - v * 20\<bar> \<le> (20 * 2 ^ 24) / 2 ^ 53 + 1 / 2 ^ 61" by (simp only: y_def fmul_def)
  have r: "\<bar>r - y\<bar> \<le> 1 / 2" unfolding r_def by (rule Math_round_near)
  have "\<bar>r\<bar> \<le> 20 * (2 ^ 24 + 1)" using assms y r unfolding pow2_rat abs_le_iff by auto
  then have "\<bar>r / 20\<bar> \<le> 2 ^ 24 + 1" by simp
  then have "\<bar>ieee (r / 20) - r / 20\<bar> \<le> (2 ^ 24 + 1) / 2 ^ 53 + 1 / 2 ^ 61" by (rule ieee_err)
  moreover have "toStepTime v = ieee (r / 20)" by (simp add: toStepTime_def fdiv_def r_def y_def)
  ultimately have t: "\<bar>toStepTime v - r / 20\<bar> \<le> (2 ^ 24 + 1) / 2 ^ 53 + 1 / 2 ^ 61" by simp
  show ?thesis using t r y unfolding pow2_rat abs_le_iff by auto
qed

lemma ieee_inv_bound:
  assumes "\<bar>ieee v\<bar> \<le> M"
  shows "\<bar>v\<bar> \<le> 2 * M + 1"
proof -
  have "\<bar>v\<bar> / 2 ^ 53 \<le> \<bar>v\<bar> / 2" by (intro divide_left_mono) simp_all
  moreover have "subnormalStep / 2 \<le> 1 / 2" using subnormalStep_small by simp
  ultimately have "\<bar>ieee v - v\<bar> \<le> \<bar>v\<bar> / 2 + 1 / 2" using ieee_near[of v] by linarith
  then show ?thesis using assms by linarith
qed

lemma Math_round_int:
  assumes "\<bar>v - of_int n\<bar> < 1 / 2"
  shows "Math_round v = of_int n"
proof -
  have "\<lfloor>v + 1 / 2\<rfloor> = n"
  proof (rule floor_unique)
    show "of_int n \<le> v + 1 / 2" using assms by linarith
    show "v + 1 / 2 < of_int n + 1" using assms by linarith
  qed
  then show ?thesis by (simp add: Math_round_def)
qed

section \<open>Gestures and the end of a clip\<close>

text \<open>The gesture starts from the values of the clip: \<^verbatim>\<open>startClipDrag\<close> copies them
  into the drag state, and every pointer move computes from that copy.\<close>

lemma startClipDrag_records:
  "dragState (startClipDrag m clip 0 clientX ed) =
     Some \<lparr>clipId = Clip.id clip, mode = m, pointerStartX = clientX,
           initialStart = Clip.start clip, initialDuration = Clip.duration clip,
           initialSourceOffset = sourceOffset clip\<rparr>"
  by (simp add: startClipDrag_def selectClip_def)

text \<open>The step of the timeline is 1/20 second. \<open>toStepTime\<close> moves a time of moderate
  size by at most half a step and the rounding of its three operations (see
  \<open>toStepTime_err\<close> above); a time that lies within \<open>1 / 2 ^ 27\<close> of a multiple of the
  step goes to the double of that multiple.\<close>

lemma MIN_CLIP_DURATION_bounds:
  "0 \<le> MIN_CLIP_DURATION" "MIN_CLIP_DURATION \<le> 1" "MIN_CLIP_DURATION \<le> 120"
  by code_simp+

lemma trim_left_unclamped:
  assumes "mode ds = TrimLeft" and "Clip.kind clip \<noteq> Image"
    and "deltaSec = toStepTime (fdiv (fsub clientX (pointerStartX ds)) PX_PER_SECOND)"
    and "sourceDelta = fsub (fadd (initialSourceOffset ds) deltaSec) (initialSourceOffset ds)"
    and "0 \<le> fadd (initialSourceOffset ds) deltaSec"
    and "fadd (initialSourceOffset ds) deltaSec \<le> fsub (sourceDuration clip) MIN_CLIP_DURATION"
    and "0 \<le> toStepTime (fadd (initialStart ds) sourceDelta)"
    and "MIN_CLIP_DURATION \<le> toStepTime (fsub (initialDuration ds) sourceDelta)"
  shows "Clip.start (dragClip ds clientX clip) = toStepTime (fadd (initialStart ds) sourceDelta)"
    and "Clip.duration (dragClip ds clientX clip) =
           toStepTime (fsub (initialDuration ds) sourceDelta)"
proof -
  let ?d = "toStepTime (fdiv (fsub clientX (pointerStartX ds)) PX_PER_SECOND)"
  have off: "max 0 (min (fadd (initialSourceOffset ds) ?d)
                        (fsub (sourceDuration clip) MIN_CLIP_DURATION)) =
             fadd (initialSourceOffset ds) ?d"
    using assms(3,5,6) by simp
  show "Clip.start (dragClip ds clientX clip) = toStepTime (fadd (initialStart ds) sourceDelta)"
    using assms(1,2,3,4,7) by (simp add: dragClip_def Let_def off)
  show "Clip.duration (dragClip ds clientX clip) =
           toStepTime (fsub (initialDuration ds) sourceDelta)"
    using assms(1,2,3,4,8) by (simp add: dragClip_def Let_def off)
qed

lemma sourceDelta_bound:
  assumes "0 \<le> nextOffset" and "nextOffset \<le> fsub whole MIN_CLIP_DURATION"
    and "\<bar>whole\<bar> \<le> 2 ^ 20" and "\<bar>before\<bar> \<le> 2 ^ 20"
  shows "\<bar>fsub nextOffset before\<bar> \<le> 2 ^ 22"
proof -
  have "\<bar>whole - MIN_CLIP_DURATION\<bar> \<le> 2 ^ 20 + 1"
    using assms(3) MIN_CLIP_DURATION_bounds(1,2) unfolding pow2_rat abs_le_iff by auto
  then have "\<bar>ieee (whole - MIN_CLIP_DURATION) - (whole - MIN_CLIP_DURATION)\<bar>
               \<le> (2 ^ 20 + 1) / 2 ^ 53 + 1 / 2 ^ 61"
    by (rule ieee_err)
  then have "fsub whole MIN_CLIP_DURATION \<le> 2 ^ 20 + 2"
    using assms(3) MIN_CLIP_DURATION_bounds(1,2) unfolding fsub_def pow2_rat abs_le_iff by auto
  then have n: "\<bar>nextOffset - before\<bar> \<le> 2 ^ 21 + 2"
    using assms(1,2,4) unfolding pow2_rat abs_le_iff by auto
  then have "\<bar>ieee (nextOffset - before) - (nextOffset - before)\<bar>
               \<le> (2 ^ 21 + 2) / 2 ^ 53 + 1 / 2 ^ 61"
    by (rule ieee_err)
  then show ?thesis using n unfolding fsub_def pow2_rat abs_le_iff by auto
qed

lemma step_of_sum_err:
  assumes "\<bar>a\<bar> \<le> 2 ^ 20" and "\<bar>b\<bar> \<le> 2 ^ 22"
  shows "\<bar>toStepTime (ieee (a + b)) - (a + b)\<bar> \<le> 1 / 40 + 1 / 2 ^ 26 + 1 / 2 ^ 29"
    and "\<bar>toStepTime (ieee (a - b)) - (a - b)\<bar> \<le> 1 / 40 + 1 / 2 ^ 26 + 1 / 2 ^ 29"
proof -
  have s: "\<bar>a + b\<bar> \<le> 2 ^ 23" and d: "\<bar>a - b\<bar> \<le> 2 ^ 23"
    using assms unfolding pow2_rat abs_le_iff by auto
  have es: "\<bar>ieee (a + b) - (a + b)\<bar> \<le> 2 ^ 23 / 2 ^ 53 + 1 / 2 ^ 61" using s by (rule ieee_err)
  have ed: "\<bar>ieee (a - b) - (a - b)\<bar> \<le> 2 ^ 23 / 2 ^ 53 + 1 / 2 ^ 61" using d by (rule ieee_err)
  have "\<bar>ieee (a + b)\<bar> \<le> 2 ^ 24" using s es unfolding pow2_rat abs_le_iff by auto
  then have ts: "\<bar>toStepTime (ieee (a + b)) - ieee (a + b)\<bar> \<le> 1 / 40 + 1 / 2 ^ 26"
    by (rule toStepTime_err)
  have "\<bar>ieee (a - b)\<bar> \<le> 2 ^ 24" using d ed unfolding pow2_rat abs_le_iff by auto
  then have td: "\<bar>toStepTime (ieee (a - b)) - ieee (a - b)\<bar> \<le> 1 / 40 + 1 / 2 ^ 26"
    by (rule toStepTime_err)
  show "\<bar>toStepTime (ieee (a + b)) - (a + b)\<bar> \<le> 1 / 40 + 1 / 2 ^ 26 + 1 / 2 ^ 29"
    using es ts unfolding pow2_rat abs_le_iff by auto
  show "\<bar>toStepTime (ieee (a - b)) - (a - b)\<bar> \<le> 1 / 40 + 1 / 2 ^ 26 + 1 / 2 ^ 29"
    using ed td unfolding pow2_rat abs_le_iff by auto
qed

lemma trim_left_drift:
  assumes "mode ds = TrimLeft" and "Clip.kind clip \<noteq> Image"
    and "deltaSec = toStepTime (fdiv (fsub clientX (pointerStartX ds)) PX_PER_SECOND)"
    and "sourceDelta = fsub (fadd (initialSourceOffset ds) deltaSec) (initialSourceOffset ds)"
    and "0 \<le> fadd (initialSourceOffset ds) deltaSec"
    and "fadd (initialSourceOffset ds) deltaSec \<le> fsub (sourceDuration clip) MIN_CLIP_DURATION"
    and "0 \<le> toStepTime (fadd (initialStart ds) sourceDelta)"
    and "MIN_CLIP_DURATION \<le> toStepTime (fsub (initialDuration ds) sourceDelta)"
    and "\<bar>initialStart ds\<bar> \<le> 2 ^ 20" and "\<bar>initialDuration ds\<bar> \<le> 2 ^ 20"
    and "\<bar>initialSourceOffset ds\<bar> \<le> 2 ^ 20" and "\<bar>sourceDuration clip\<bar> \<le> 2 ^ 20"
  shows "\<bar>Clip.start (dragClip ds clientX clip) + Clip.duration (dragClip ds clientX clip) -
          (initialStart ds + initialDuration ds)\<bar> \<le> 1 / 20 + 1 / 2 ^ 24"
proof -
  have sd: "\<bar>sourceDelta\<bar> \<le> 2 ^ 22"
    unfolding assms(4) using assms(5,6,12,11) by (rule sourceDelta_bound)
  have s: "Clip.start (dragClip ds clientX clip) = toStepTime (ieee (initialStart ds + sourceDelta))"
    using trim_left_unclamped(1)[OF assms(1-8)] by (simp only: fadd_def)
  have d: "Clip.duration (dragClip ds clientX clip) =
             toStepTime (ieee (initialDuration ds - sourceDelta))"
    using trim_left_unclamped(2)[OF assms(1-8)] by (simp only: fsub_def)
  show ?thesis
    unfolding s d
    using step_of_sum_err(1)[OF assms(9) sd] step_of_sum_err(2)[OF assms(10) sd]
    unfolding pow2_rat abs_le_iff by auto
qed

text \<open>A time within \<open>1 / 2 ^ 27\<close> of a multiple of the step is quantised to the double
  of that multiple.\<close>

lemma toStepTime_grid:
  assumes "\<bar>v - of_int n / 20\<bar> \<le> 1 / 2 ^ 27" and "\<bar>v\<bar> \<le> 2 ^ 24"
  shows "\<bar>toStepTime v - of_int n / 20\<bar> \<le> 1 / 2 ^ 28"
proof -
  define y where "y = fmul v 20"
  have "\<bar>v * 20\<bar> \<le> 20 * 2 ^ 24" using assms(2) by (simp add: abs_mult)
  then have "\<bar>ieee (v * 20) - v * 20\<bar> \<le> (20 * 2 ^ 24) / 2 ^ 53 + 1 / 2 ^ 61" by (rule ieee_err)
  then have y: "\<bar>y - v * 20\<bar> \<le> (20 * 2 ^ 24) / 2 ^ 53 + 1 / 2 ^ 61" by (simp only: y_def fmul_def)
  have "\<bar>y - of_int n\<bar> < 1 / 2" using y assms(1) unfolding pow2_rat abs_le_iff abs_less_iff by auto
  then have "Math_round y = of_int n" by (rule Math_round_int)
  then have t: "toStepTime v = ieee (of_int n / 20)" by (simp add: toStepTime_def fdiv_def y_def)
  have "\<bar>of_int n / 20 :: rat\<bar> \<le> 2 ^ 24 + 1" using assms unfolding pow2_rat abs_le_iff by auto
  then have "\<bar>ieee (of_int n / 20) - of_int n / 20\<bar> \<le> (2 ^ 24 + 1) / 2 ^ 53 + 1 / 2 ^ 61"
    by (rule ieee_err)
  then show ?thesis unfolding t pow2_rat abs_le_iff by auto
qed

text \<open>A quantised time of moderate size is within \<open>1 / 2 ^ 29\<close> of a multiple of the
  step.\<close>

lemma grid_point:
  assumes "v = toStepTime u" and "\<bar>v\<bar> \<le> 2 ^ 22"
  shows "\<exists>n::int. \<bar>v - of_int n / 20\<bar> \<le> 1 / 2 ^ 29"
proof -
  define n where "n = \<lfloor>fmul u 20 + 1 / 2\<rfloor>"
  have v: "v = ieee (of_int n / 20)"
    by (simp add: assms(1) toStepTime_def fdiv_def Math_round_def n_def)
  have "\<bar>ieee (of_int n / 20)\<bar> \<le> 2 ^ 22" using assms(2) by (simp only: v)
  then have "\<bar>of_int n / 20 :: rat\<bar> \<le> 2 * 2 ^ 22 + 1" by (rule ieee_inv_bound)
  then have "\<bar>ieee (of_int n / 20) - of_int n / 20\<bar> \<le> (2 * 2 ^ 22 + 1) / 2 ^ 53 + 1 / 2 ^ 61"
    by (rule ieee_err)
  then have "\<bar>v - of_int n / 20\<bar> \<le> 1 / 2 ^ 29"
    unfolding v[symmetric] pow2_rat abs_le_iff by auto
  then show ?thesis by (rule exI)
qed

lemma trim_left_grid:
  assumes "mode ds = TrimLeft" and "Clip.kind clip \<noteq> Image"
    and "deltaSec = toStepTime (fdiv (fsub clientX (pointerStartX ds)) PX_PER_SECOND)"
    and "sourceDelta = fsub (fadd (initialSourceOffset ds) deltaSec) (initialSourceOffset ds)"
    and "0 \<le> fadd (initialSourceOffset ds) deltaSec"
    and "fadd (initialSourceOffset ds) deltaSec \<le> fsub (sourceDuration clip) MIN_CLIP_DURATION"
    and "0 \<le> toStepTime (fadd (initialStart ds) sourceDelta)"
    and "MIN_CLIP_DURATION \<le> toStepTime (fsub (initialDuration ds) sourceDelta)"
    and "\<bar>initialStart ds\<bar> \<le> 2 ^ 20" and "\<bar>initialDuration ds\<bar> \<le> 2 ^ 20"
    and "\<bar>initialSourceOffset ds\<bar> \<le> 2 ^ 20" and "\<bar>sourceDuration clip\<bar> \<le> 2 ^ 20"
    and "toStepTime (initialStart ds) = initialStart ds"
    and "toStepTime (initialDuration ds) = initialDuration ds"
  shows "\<bar>Clip.start (dragClip ds clientX clip) + Clip.duration (dragClip ds clientX clip) -
          (initialStart ds + initialDuration ds)\<bar> \<le> 1 / 2 ^ 24"
proof -
  define s0 where "s0 = initialStart ds"
  define d0 where "d0 = initialDuration ds"
  define o0 where "o0 = initialSourceOffset ds"
  define N where "N = fadd o0 deltaSec"
  have sigma: "sourceDelta = fsub N o0" by (simp only: assms(4) N_def o0_def)
  \<comment> \<open>sizes\<close>
  have "\<bar>sourceDuration clip - MIN_CLIP_DURATION\<bar> \<le> 2 ^ 20 + 1"
    using assms(12) MIN_CLIP_DURATION_bounds(1,2) unfolding pow2_rat abs_le_iff by auto
  then have "\<bar>ieee (sourceDuration clip - MIN_CLIP_DURATION) -
              (sourceDuration clip - MIN_CLIP_DURATION)\<bar> \<le> (2 ^ 20 + 1) / 2 ^ 53 + 1 / 2 ^ 61"
    by (rule ieee_err)
  then have "fsub (sourceDuration clip) MIN_CLIP_DURATION \<le> 2 ^ 20 + 2"
    using assms(12) MIN_CLIP_DURATION_bounds(1,2) unfolding fsub_def pow2_rat abs_le_iff by auto
  then have N: "\<bar>N\<bar> \<le> 2 ^ 20 + 2"
    using assms(5,6) unfolding N_def o0_def pow2_rat abs_le_iff by auto
  then have "\<bar>ieee (o0 + deltaSec)\<bar> \<le> 2 ^ 20 + 2" by (simp only: N_def fadd_def)
  then have od: "\<bar>o0 + deltaSec\<bar> \<le> 2 * (2 ^ 20 + 2) + 1" by (rule ieee_inv_bound)
  have o: "\<bar>o0\<bar> \<le> 2 ^ 20" using assms(11) by (simp only: o0_def)
  have dl: "\<bar>deltaSec\<bar> \<le> 2 ^ 22" using od o unfolding pow2_rat abs_le_iff by auto
  \<comment> \<open>the source delta is the pointer delta up to rounding\<close>
  have "\<bar>ieee (o0 + deltaSec) - (o0 + deltaSec)\<bar> \<le> (2 * (2 ^ 20 + 2) + 1) / 2 ^ 53 + 1 / 2 ^ 61"
    using od by (rule ieee_err)
  then have e1: "\<bar>N - (o0 + deltaSec)\<bar> \<le> (2 * (2 ^ 20 + 2) + 1) / 2 ^ 53 + 1 / 2 ^ 61"
    by (simp only: N_def fadd_def)
  have "\<bar>N - o0\<bar> \<le> 2 ^ 21 + 2" using N o unfolding pow2_rat abs_le_iff by auto
  then have "\<bar>ieee (N - o0) - (N - o0)\<bar> \<le> (2 ^ 21 + 2) / 2 ^ 53 + 1 / 2 ^ 61" by (rule ieee_err)
  then have e2: "\<bar>sourceDelta - (N - o0)\<bar> \<le> (2 ^ 21 + 2) / 2 ^ 53 + 1 / 2 ^ 61"
    by (simp only: sigma fsub_def)
  have sd: "\<bar>sourceDelta - deltaSec\<bar> \<le> 1 / 2 ^ 30"
    using e1 e2 unfolding pow2_rat abs_le_iff by auto
  have sb: "\<bar>sourceDelta\<bar> \<le> 2 ^ 22"
    unfolding assms(4) using assms(5,6,12,11) by (rule sourceDelta_bound)
  \<comment> \<open>grid points\<close>
  obtain k :: int where k: "\<bar>deltaSec - of_int k / 20\<bar> \<le> 1 / 2 ^ 29"
    using grid_point[OF assms(3) dl] by blast
  have "\<bar>s0\<bar> \<le> 2 ^ 22" using assms(9) unfolding s0_def pow2_rat by linarith
  moreover have "s0 = toStepTime s0" using assms(13) by (simp only: s0_def)
  ultimately obtain a :: int where a: "\<bar>s0 - of_int a / 20\<bar> \<le> 1 / 2 ^ 29"
    using grid_point by blast
  have "\<bar>d0\<bar> \<le> 2 ^ 22" using assms(10) unfolding d0_def pow2_rat by linarith
  moreover have "d0 = toStepTime d0" using assms(14) by (simp only: d0_def)
  ultimately obtain b :: int where b: "\<bar>d0 - of_int b / 20\<bar> \<le> 1 / 2 ^ 29"
    using grid_point by blast
  \<comment> \<open>the new start\<close>
  have s0b: "\<bar>s0\<bar> \<le> 2 ^ 20" using assms(9) by (simp only: s0_def)
  have d0b: "\<bar>d0\<bar> \<le> 2 ^ 20" using assms(10) by (simp only: d0_def)
  have "\<bar>s0 + sourceDelta\<bar> \<le> 2 ^ 23" using s0b sb unfolding pow2_rat abs_le_iff by auto
  then have es: "\<bar>ieee (s0 + sourceDelta) - (s0 + sourceDelta)\<bar> \<le> 2 ^ 23 / 2 ^ 53 + 1 / 2 ^ 61"
    by (rule ieee_err)
  have As: "\<bar>ieee (s0 + sourceDelta)\<bar> \<le> 2 ^ 24"
    using es s0b sb unfolding pow2_rat abs_le_iff by auto
  have "\<bar>ieee (s0 + sourceDelta) - of_int (a + k) / 20\<bar> \<le> 1 / 2 ^ 27"
    using es a k sd unfolding pow2_rat abs_le_iff by (auto simp: add_divide_distrib)
  then have gs: "\<bar>toStepTime (ieee (s0 + sourceDelta)) - of_int (a + k) / 20\<bar> \<le> 1 / 2 ^ 28"
    using As by (rule toStepTime_grid)
  \<comment> \<open>the new duration\<close>
  have "\<bar>d0 - sourceDelta\<bar> \<le> 2 ^ 23" using d0b sb unfolding pow2_rat abs_le_iff by auto
  then have ed: "\<bar>ieee (d0 - sourceDelta) - (d0 - sourceDelta)\<bar> \<le> 2 ^ 23 / 2 ^ 53 + 1 / 2 ^ 61"
    by (rule ieee_err)
  have Ad: "\<bar>ieee (d0 - sourceDelta)\<bar> \<le> 2 ^ 24"
    using ed d0b sb unfolding pow2_rat abs_le_iff by auto
  have "\<bar>ieee (d0 - sourceDelta) - of_int (b - k) / 20\<bar> \<le> 1 / 2 ^ 27"
    using ed b k sd unfolding pow2_rat abs_le_iff by (auto simp: diff_divide_distrib)
  then have gd: "\<bar>toStepTime (ieee (d0 - sourceDelta)) - of_int (b - k) / 20\<bar> \<le> 1 / 2 ^ 28"
    using Ad by (rule toStepTime_grid)
  have s: "Clip.start (dragClip ds clientX clip) = toStepTime (ieee (s0 + sourceDelta))"
    using trim_left_unclamped(1)[OF assms(1-8)] by (simp only: fadd_def s0_def)
  have d: "Clip.duration (dragClip ds clientX clip) = toStepTime (ieee (d0 - sourceDelta))"
    using trim_left_unclamped(2)[OF assms(1-8)] by (simp only: fsub_def d0_def)
  have "\<bar>toStepTime (ieee (s0 + sourceDelta)) + toStepTime (ieee (d0 - sourceDelta)) -
          (s0 + d0)\<bar> \<le> 1 / 2 ^ 24"
    using gs gd a b unfolding pow2_rat abs_le_iff
    by (auto simp: add_divide_distrib diff_divide_distrib)
  then show ?thesis by (simp only: s d s0_def d0_def)
qed

text \<open>The values of the recorded clip, of the clip of 10 seconds and of the short clip,
  and the machine results met when their left handle is dragged.\<close>

lemma recordedTrimLeft_fields:
  "mode recordedTrimLeft = TrimLeft" "pointerStartX recordedTrimLeft = 0"
  "initialStart recordedTrimLeft = 0" "initialDuration recordedTrimLeft = ieee (1003 / 100)"
  "initialSourceOffset recordedTrimLeft = 0"
  by (simp_all add: recordedTrimLeft_def recordedClip_def importedClip_def)

lemma recordedClip_fields:
  "Clip.kind recordedClip = Video" "Clip.start recordedClip = 0"
  "Clip.duration recordedClip = ieee (1003 / 100)" "sourceOffset recordedClip = 0"
  "sourceDuration recordedClip = ieee (1003 / 100)"
  by (simp_all add: recordedClip_def importedClip_def)

lemma recorded_drag_60:
  "dragClip recordedTrimLeft 60 recordedClip =
     recordedClip\<lparr>sourceOffset := 1, Clip.start := 1, Clip.duration := ieee (181 / 20)\<rparr>"
  by code_simp

lemma recorded_steps:
  "toStepTime (fdiv (fsub 60 0) PX_PER_SECOND) = 1"
  "fsub (fadd 0 1) 0 = 1"
  "fadd 0 1 = 1" "fsub 1 0 = 1"
  "fsub (ieee (1003 / 100)) MIN_CLIP_DURATION = ieee (983 / 100)"
  "1 \<le> ieee (983 / 100)"
  "toStepTime 1 = 1"
  "toStepTime (fsub (ieee (1003 / 100)) 1) = ieee (181 / 20)"
  "MIN_CLIP_DURATION \<le> ieee (181 / 20)"
  "fadd 1 (ieee (181 / 20)) = ieee (201 / 20)"
  "fadd 0 (ieee (1003 / 100)) = ieee (1003 / 100)"
  "ieee (201 / 20) \<noteq> ieee (1003 / 100)"
  "1 + ieee (181 / 20) \<noteq> ieee (1003 / 100)"
  by code_simp+

text \<open>
  Claim C2, as stated: a trim-left drag on a video or audio clip that meets none of the
  four clamps leaves \<open>start + duration\<close> as it was. It fails on the clip of a video of
  10.03 seconds: dragging the left handle by 60 pixels (one second) meets no clamp, sets
  the start to 1 and the duration to 9.05, and so moves the end from 10.03 to 10.05,
  because the new start and the new duration are each rounded to the step of 1/20
  second. The ends differ as exact sums and as the sums the machine computes.
\<close>

theorem trim_left_end_counterexample:
  "mode recordedTrimLeft = TrimLeft \<and> Clip.kind recordedClip \<noteq> Image \<and>
   toStepTime (fdiv (fsub 60 (pointerStartX recordedTrimLeft)) PX_PER_SECOND) = 1 \<and>
   fsub (fadd (initialSourceOffset recordedTrimLeft) 1) (initialSourceOffset recordedTrimLeft) = 1 \<and>
   0 \<le> fadd (initialSourceOffset recordedTrimLeft) 1 \<and>
   fadd (initialSourceOffset recordedTrimLeft) 1 \<le>
     fsub (sourceDuration recordedClip) MIN_CLIP_DURATION \<and>
   0 \<le> toStepTime (fadd (initialStart recordedTrimLeft) 1) \<and>
   MIN_CLIP_DURATION \<le> toStepTime (fsub (initialDuration recordedTrimLeft) 1) \<and>
   initialStart recordedTrimLeft = 0 \<and> initialDuration recordedTrimLeft = ieee (1003 / 100) \<and>
   Clip.start recordedClip = 0 \<and> Clip.duration recordedClip = ieee (1003 / 100) \<and>
   Clip.start (dragClip recordedTrimLeft 60 recordedClip) = 1 \<and>
   Clip.duration (dragClip recordedTrimLeft 60 recordedClip) = ieee (181 / 20) \<and>
   Clip.start (dragClip recordedTrimLeft 60 recordedClip) +
     Clip.duration (dragClip recordedTrimLeft 60 recordedClip) \<noteq>
   Clip.start recordedClip + Clip.duration recordedClip \<and>
   fadd (Clip.start (dragClip recordedTrimLeft 60 recordedClip))
     (Clip.duration (dragClip recordedTrimLeft 60 recordedClip)) = ieee (201 / 20) \<and>
   fadd (Clip.start recordedClip) (Clip.duration recordedClip) = ieee (1003 / 100) \<and>
   ieee (201 / 20) \<noteq> ieee (1003 / 100)"
  by (simp add: recordedTrimLeft_fields recordedClip_fields recorded_drag_60 recorded_steps)

text \<open>Even when the start and the duration are on the grid of the step, the end that
  the machine computes can change in its last place: the short clip ends at
  \<open>0.1 + 0.7\<close>, which is the double below 0.8, and after a drag of its left handle by
  6 pixels at \<open>0.2 + 0.6\<close>, which is the double nearest to 0.8.\<close>

lemma trim_left_end_last_place:
  "toStepTime (initialStart shortTrimLeft) = initialStart shortTrimLeft \<and>
   toStepTime (initialDuration shortTrimLeft) = initialDuration shortTrimLeft \<and>
   dragClip shortTrimLeft 6 shortClip =
     shortClip\<lparr>sourceOffset := ieee (1 / 10), Clip.start := ieee (1 / 5),
                Clip.duration := ieee (3 / 5)\<rparr> \<and>
   fadd (Clip.start shortClip) (Clip.duration shortClip) < ieee (4 / 5) \<and>
   fadd (ieee (1 / 5)) (ieee (3 / 5)) = ieee (4 / 5)"
  by code_simp

text \<open>
  Claim C2, amended. Under the same conditions, and for times below \<open>2 ^ 20\<close> seconds,
  the end after the gesture is within one step of 1/20 second (and \<open>1 / 2 ^ 24\<close> for the
  rounding of the machine) of the end before the gesture; when the initial start and the
  initial duration are on the grid of the step (\<open>toStepTime\<close> leaves them as they are),
  the end after the gesture is within \<open>1 / 2 ^ 24\<close> of the end before.
\<close>

theorem trim_left_end:
  assumes "mode ds = TrimLeft" and "Clip.kind clip \<noteq> Image"
    and "deltaSec = toStepTime (fdiv (fsub clientX (pointerStartX ds)) PX_PER_SECOND)"
    and "sourceDelta = fsub (fadd (initialSourceOffset ds) deltaSec) (initialSourceOffset ds)"
    and "0 \<le> fadd (initialSourceOffset ds) deltaSec"
    and "fadd (initialSourceOffset ds) deltaSec \<le> fsub (sourceDuration clip) MIN_CLIP_DURATION"
    and "0 \<le> toStepTime (fadd (initialStart ds) sourceDelta)"
    and "MIN_CLIP_DURATION \<le> toStepTime (fsub (initialDuration ds) sourceDelta)"
    and "\<bar>initialStart ds\<bar> \<le> 2 ^ 20" and "\<bar>initialDuration ds\<bar> \<le> 2 ^ 20"
    and "\<bar>initialSourceOffset ds\<bar> \<le> 2 ^ 20" and "\<bar>sourceDuration clip\<bar> \<le> 2 ^ 20"
  shows "\<bar>Clip.start (dragClip ds clientX clip) + Clip.duration (dragClip ds clientX clip) -
           (initialStart ds + initialDuration ds)\<bar> \<le> 1 / 20 + 1 / 2 ^ 24 \<and>
         (toStepTime (initialStart ds) = initialStart ds \<longrightarrow>
          toStepTime (initialDuration ds) = initialDuration ds \<longrightarrow>
          \<bar>Clip.start (dragClip ds clientX clip) + Clip.duration (dragClip ds clientX clip) -
            (initialStart ds + initialDuration ds)\<bar> \<le> 1 / 2 ^ 24)"
proof (intro conjI impI)
  show "\<bar>Clip.start (dragClip ds clientX clip) + Clip.duration (dragClip ds clientX clip) -
           (initialStart ds + initialDuration ds)\<bar> \<le> 1 / 20 + 1 / 2 ^ 24"
    using assms by (rule trim_left_drift)
next
  assume "toStepTime (initialStart ds) = initialStart ds"
    and "toStepTime (initialDuration ds) = initialDuration ds"
  with assms
  show "\<bar>Clip.start (dragClip ds clientX clip) + Clip.duration (dragClip ds clientX clip) -
           (initialStart ds + initialDuration ds)\<bar> \<le> 1 / 2 ^ 24"
    by (rule trim_left_grid)
qed

lemma stepped_drag_120:
  "dragClip steppedTrimLeft 120 steppedClip =
     steppedClip\<lparr>sourceOffset := 2, Clip.start := 2, Clip.duration := 8\<rparr>"
  by code_simp

theorem trim_left_end_witness:
  "mode steppedTrimLeft = TrimLeft \<and> Clip.kind steppedClip = Video \<and>
   initialStart steppedTrimLeft = 0 \<and> initialDuration steppedTrimLeft = 10 \<and>
   toStepTime (initialStart steppedTrimLeft) = initialStart steppedTrimLeft \<and>
   toStepTime (initialDuration steppedTrimLeft) = initialDuration steppedTrimLeft \<and>
   Clip.start (dragClip steppedTrimLeft 120 steppedClip) = 2 \<and>
   Clip.duration (dragClip steppedTrimLeft 120 steppedClip) = 8 \<and>
   \<bar>Clip.start (dragClip steppedTrimLeft 120 steppedClip) +
      Clip.duration (dragClip steppedTrimLeft 120 steppedClip) -
      (initialStart steppedTrimLeft + initialDuration steppedTrimLeft)\<bar> \<le> 1 / 2 ^ 24"
proof -
  have f: "mode steppedTrimLeft = TrimLeft" "Clip.kind steppedClip = Video"
    "initialStart steppedTrimLeft = 0" "initialDuration steppedTrimLeft = 10"
    "initialSourceOffset steppedTrimLeft = 0" "pointerStartX steppedTrimLeft = 0"
    "sourceDuration steppedClip = 10"
    by (simp_all add: steppedTrimLeft_def steppedClip_def importedClip_def)
  have v: "toStepTime (fdiv (fsub 120 0) PX_PER_SECOND) = 2" "fsub (fadd 0 2) 0 = 2"
    "fadd 0 2 = 2" "fsub 2 0 = 2" "2 \<le> fsub 10 MIN_CLIP_DURATION" "toStepTime 2 = 2"
    "toStepTime (fsub 10 2) = 8" "MIN_CLIP_DURATION \<le> 8" "toStepTime 0 = 0"
    "toStepTime 10 = 10"
    by code_simp+
  have h1: "mode steppedTrimLeft = TrimLeft" by (rule f(1))
  have h2: "Clip.kind steppedClip \<noteq> Image" by (simp add: f)
  have h3: "2 = toStepTime (fdiv (fsub 120 (pointerStartX steppedTrimLeft)) PX_PER_SECOND)"
    by (simp add: f v)
  have h4: "2 = fsub (fadd (initialSourceOffset steppedTrimLeft) 2)
                  (initialSourceOffset steppedTrimLeft)"
    by (simp add: f v)
  have h5: "0 \<le> fadd (initialSourceOffset steppedTrimLeft) 2" by (simp add: f v)
  have h6: "fadd (initialSourceOffset steppedTrimLeft) 2 \<le>
              fsub (sourceDuration steppedClip) MIN_CLIP_DURATION"
    by (simp add: f v)
  have h7: "0 \<le> toStepTime (fadd (initialStart steppedTrimLeft) 2)" by (simp add: f v)
  have h8: "MIN_CLIP_DURATION \<le> toStepTime (fsub (initialDuration steppedTrimLeft) 2)"
    by (simp add: f v)
  have h9: "\<bar>initialStart steppedTrimLeft\<bar> \<le> 2 ^ 20" by (simp add: f)
  have h10: "\<bar>initialDuration steppedTrimLeft\<bar> \<le> 2 ^ 20" by (simp add: f)
  have h11: "\<bar>initialSourceOffset steppedTrimLeft\<bar> \<le> 2 ^ 20" by (simp add: f)
  have h12: "\<bar>sourceDuration steppedClip\<bar> \<le> 2 ^ 20" by (simp add: f)
  have g1: "toStepTime (initialStart steppedTrimLeft) = initialStart steppedTrimLeft"
    by (simp add: f v)
  have g2: "toStepTime (initialDuration steppedTrimLeft) = initialDuration steppedTrimLeft"
    by (simp add: f v)
  have "\<bar>Clip.start (dragClip steppedTrimLeft 120 steppedClip) +
      Clip.duration (dragClip steppedTrimLeft 120 steppedClip) -
      (initialStart steppedTrimLeft + initialDuration steppedTrimLeft)\<bar> \<le> 1 / 2 ^ 24"
    using trim_left_end[OF h1 h2 h3 h4 h5 h6 h7 h8 h9 h10 h11 h12] g1 g2 by blast
  then show ?thesis using g1 g2 by (simp add: f stepped_drag_120)
qed

subsection \<open>Clips after a mutation\<close>

text \<open>Every gesture and every inspector edit keeps the duration of a clip at
  \<open>MIN_CLIP_DURATION\<close> or more. The inspector keeps the source offset of a video or audio
  clip between 0 and the bound it computes, the double of
  \<open>sourceDuration - MIN_CLIP_DURATION\<close>; a gesture keeps it between 0 and that bound plus
  half a step (and \<open>1 / 2 ^ 26\<close> for the rounding of the machine).\<close>

lemma toStepTime_nonneg:
  assumes "0 \<le> v"
  shows "0 \<le> toStepTime v"
proof -
  have "0 \<le> ieee (v * 20)" using assms by (intro ieee_nonneg) simp
  then have "0 \<le> Math_round (ieee (v * 20))" by (simp add: Math_round_def)
  then have "0 \<le> ieee (Math_round (ieee (v * 20)) / 20)" by (intro ieee_nonneg) simp
  then show ?thesis by (simp add: toStepTime_def fdiv_def fmul_def)
qed

lemma dragClip_duration:
  assumes "MIN_CLIP_DURATION \<le> Clip.duration clip"
  shows "MIN_CLIP_DURATION \<le> Clip.duration (dragClip ds clientX clip)"
  using assms MIN_CLIP_DURATION_bounds(3) by (simp add: dragClip_def Let_def le_max_iff_disj)

lemma updateClipField_duration:
  "MIN_CLIP_DURATION \<le> Clip.duration clip \<Longrightarrow>
   MIN_CLIP_DURATION \<le> Clip.duration (updateClipField field parsed clip)"
  by (cases field) (simp_all add: updateClipField_def Let_def le_max_iff_disj)

lemma updateClipField_sourceOffset:
  assumes "Clip.kind clip \<noteq> Image" and "0 \<le> sourceOffset clip"
    and "sourceOffset clip \<le> fsub (sourceDuration clip) MIN_CLIP_DURATION"
  shows "0 \<le> sourceOffset (updateClipField field parsed clip) \<and>
         sourceOffset (updateClipField field parsed clip) \<le>
           fsub (sourceDuration (updateClipField field parsed clip)) MIN_CLIP_DURATION"
  using assms by (cases field) (simp_all add: updateClipField_def Let_def le_max_iff_disj)

lemma dragClip_sourceOffset:
  assumes "Clip.kind clip \<noteq> Image" and "0 \<le> sourceOffset clip"
    and "sourceOffset clip \<le> fsub (sourceDuration clip) MIN_CLIP_DURATION"
    and "\<bar>sourceDuration clip\<bar> \<le> 2 ^ 20"
  shows "0 \<le> sourceOffset (dragClip ds clientX clip) \<and>
         sourceOffset (dragClip ds clientX clip) \<le>
           fsub (sourceDuration (dragClip ds clientX clip)) MIN_CLIP_DURATION +
             1 / 40 + 1 / 2 ^ 26"
proof (cases "mode ds")
  case Move
  then show ?thesis using assms(2,3) by (simp add: dragClip_def Let_def)
next
  case TrimRight
  then show ?thesis using assms(2,3) by (simp add: dragClip_def Let_def)
next
  case TrimLeft
  define bound where "bound = fsub (sourceDuration clip) MIN_CLIP_DURATION"
  define n where
    "n = max 0 (min (fadd (initialSourceOffset ds)
                      (toStepTime (fdiv (fsub clientX (pointerStartX ds)) PX_PER_SECOND)))
                    bound)"
  have b0: "0 \<le> bound" using assms(2,3) unfolding bound_def by linarith
  have n0: "0 \<le> n" by (simp add: n_def)
  have n1: "n \<le> bound" using b0 by (simp add: n_def)
  have "\<bar>sourceDuration clip - MIN_CLIP_DURATION\<bar> \<le> 2 ^ 20 + 1"
    using assms(4) MIN_CLIP_DURATION_bounds(1,2) unfolding pow2_rat abs_le_iff by auto
  then have "\<bar>ieee (sourceDuration clip - MIN_CLIP_DURATION) -
              (sourceDuration clip - MIN_CLIP_DURATION)\<bar> \<le> (2 ^ 20 + 1) / 2 ^ 53 + 1 / 2 ^ 61"
    by (rule ieee_err)
  then have "bound \<le> 2 ^ 20 + 2"
    using assms(4) MIN_CLIP_DURATION_bounds(1,2)
    unfolding bound_def fsub_def pow2_rat abs_le_iff by auto
  then have "\<bar>n\<bar> \<le> 2 ^ 24" using n0 n1 unfolding pow2_rat abs_le_iff by auto
  then have "\<bar>toStepTime n - n\<bar> \<le> 1 / 40 + 1 / 2 ^ 26" by (rule toStepTime_err)
  then have "toStepTime n \<le> bound + 1 / 40 + 1 / 2 ^ 26"
    using n1 unfolding pow2_rat abs_le_iff by auto
  moreover have "0 \<le> toStepTime n" using n0 by (rule toStepTime_nonneg)
  moreover have "sourceOffset (dragClip ds clientX clip) = toStepTime n"
    and "sourceDuration (dragClip ds clientX clip) = sourceDuration clip"
    using TrimLeft assms(1) by (simp_all add: dragClip_def Let_def n_def bound_def)
  ultimately show ?thesis by (simp add: bound_def)
qed

text \<open>On the whole clip list: a pointer move and an inspector edit keep every start at 0
  or more and every duration at \<open>MIN_CLIP_DURATION\<close> or more.\<close>

lemma updateFirst_all:
  "\<forall>a \<in> set cs. P a \<Longrightarrow> (\<And>a. P a \<Longrightarrow> P (f a)) \<Longrightarrow> \<forall>a \<in> set (updateFirst Q f cs). P a"
  by (induction cs) auto

lemma dragClip_start: "0 \<le> Clip.start clip \<Longrightarrow> 0 \<le> Clip.start (dragClip ds clientX clip)"
  by (simp add: dragClip_def Let_def)

lemma updateClipField_start:
  "0 \<le> Clip.start clip \<Longrightarrow> 0 \<le> Clip.start (updateClipField field parsed clip)"
  by (cases field) (simp_all add: updateClipField_def Let_def)

lemma onPointerMove_clips:
  assumes "\<forall>clip \<in> set (clips ed). 0 \<le> Clip.start clip \<and> MIN_CLIP_DURATION \<le> Clip.duration clip"
  shows "\<forall>clip \<in> set (clips (onPointerMove clientX ed)).
           0 \<le> Clip.start clip \<and> MIN_CLIP_DURATION \<le> Clip.duration clip"
proof (cases "dragState ed")
  case None
  then show ?thesis using assms by (simp add: onPointerMove_def)
next
  case (Some ds)
  show ?thesis
  proof (cases "find (\<lambda>item. Clip.id item = clipId ds) (clips ed)")
    case None
    then show ?thesis using Some assms by (simp add: onPointerMove_def)
  next
    case (Some found)
    have "\<forall>clip \<in> set (updateFirst (\<lambda>item. Clip.id item = clipId ds) (dragClip ds clientX)
                          (clips ed)).
            0 \<le> Clip.start clip \<and> MIN_CLIP_DURATION \<le> Clip.duration clip"
      using assms by (rule updateFirst_all) (simp add: dragClip_start dragClip_duration)
    then show ?thesis using Some \<open>dragState ed = Some ds\<close> by (simp add: onPointerMove_def)
  qed
qed

lemma updateSelectedClipField_clips:
  assumes "\<forall>clip \<in> set (clips ed). 0 \<le> Clip.start clip \<and> MIN_CLIP_DURATION \<le> Clip.duration clip"
  shows "\<forall>clip \<in> set (clips (updateSelectedClipField field v ed)).
           0 \<le> Clip.start clip \<and> MIN_CLIP_DURATION \<le> Clip.duration clip"
proof (cases "selectedClip ed")
  case None
  then show ?thesis using assms by (simp add: updateSelectedClipField_def)
next
  case (Some sel)
  show ?thesis
  proof (cases v)
    case None
    then show ?thesis using Some assms by (simp add: updateSelectedClipField_def)
  next
    case (Some parsed)
    have "\<forall>clip \<in> set (updateFirst (\<lambda>clip. Clip.id clip = Clip.id sel)
                          (updateClipField field parsed) (clips ed)).
            0 \<le> Clip.start clip \<and> MIN_CLIP_DURATION \<le> Clip.duration clip"
      using assms by (rule updateFirst_all) (simp add: updateClipField_start updateClipField_duration)
    then show ?thesis using Some \<open>selectedClip ed = Some sel\<close>
      by (simp add: updateSelectedClipField_def)
  qed
qed

lemma recorded_drag_600:
  "dragClip recordedTrimLeft 600 recordedClip =
     recordedClip\<lparr>sourceOffset := ieee (197 / 20), Clip.start := ieee (197 / 20),
                   Clip.duration := MIN_CLIP_DURATION\<rparr>"
  by code_simp

lemma recorded_bounds:
  "MIN_CLIP_DURATION \<le> ieee (1003 / 100)"
  "0 \<le> ieee (1003 / 100) - MIN_CLIP_DURATION"
  "0 \<le> ieee (983 / 100)"
  "ieee (983 / 100) < ieee (197 / 20)"
  "ieee (1003 / 100) - MIN_CLIP_DURATION < ieee (197 / 20)"
  by code_simp+

text \<open>
  Claim C3 is violated by the trim-left gesture. The new source offset is clamped to
  \<open>sourceDuration - MIN_CLIP_DURATION\<close> and quantised afterwards, and the quantisation
  can round it up past the bound. On the clip of a video of 10.03 seconds, which
  satisfies the invariant, dragging the left handle by 600 pixels leaves the source
  offset at 9.85, above the bound 9.83 (as the machine computes it and as the exact
  difference).
\<close>

theorem trim_left_offset_past_bound:
  "MIN_CLIP_DURATION \<le> Clip.duration recordedClip \<and>
   0 \<le> sourceOffset recordedClip \<and>
   sourceOffset recordedClip \<le> sourceDuration recordedClip - MIN_CLIP_DURATION \<and>
   sourceOffset recordedClip \<le> fsub (sourceDuration recordedClip) MIN_CLIP_DURATION \<and>
   dragState (startClipDrag TrimLeft recordedClip 0 0 recordedEditor) = Some recordedTrimLeft \<and>
   clips (onPointerMove 600 (startClipDrag TrimLeft recordedClip 0 0 recordedEditor)) =
     [recordedClip\<lparr>sourceOffset := ieee (197 / 20), Clip.start := ieee (197 / 20),
                    Clip.duration := MIN_CLIP_DURATION\<rparr>] \<and>
   fsub (sourceDuration recordedClip) MIN_CLIP_DURATION = ieee (983 / 100) \<and>
   ieee (983 / 100) < ieee (197 / 20) \<and>
   sourceDuration recordedClip - MIN_CLIP_DURATION < ieee (197 / 20)"
proof -
  have ds: "dragState (startClipDrag TrimLeft recordedClip 0 0 recordedEditor) =
              Some recordedTrimLeft"
    by (simp add: startClipDrag_def selectClip_def recordedTrimLeft_def)
  have cs: "clips (startClipDrag TrimLeft recordedClip 0 0 recordedEditor) = [recordedClip]"
    by (simp add: startClipDrag_def selectClip_def recordedEditor_def)
  have "clipId recordedTrimLeft = Clip.id recordedClip" by (simp add: recordedTrimLeft_def)
  then have "clips (onPointerMove 600 (startClipDrag TrimLeft recordedClip 0 0 recordedEditor)) =
          [dragClip recordedTrimLeft 600 recordedClip]"
    by (simp add: onPointerMove_def ds cs)
  then show ?thesis
    using ds
    by (simp add: recorded_drag_600 recordedClip_fields recorded_steps recorded_bounds)
qed

lemma floor_rat_numeral [simp]:
  "\<lfloor>numeral a / numeral b :: rat\<rfloor> = numeral a div numeral b"
  by (metis floor_divide_of_int_eq of_int_numeral)

lemma floor_rat_neg_numeral [simp]:
  "\<lfloor>- (numeral a / numeral b) :: rat\<rfloor> = - numeral a div numeral b"
  by (metis divide_minus_left floor_divide_of_int_eq of_int_neg_numeral of_int_numeral)

lemma floor_rat_one_divide [simp]: "\<lfloor>1 / numeral b :: rat\<rfloor> = 1 div numeral b"
  by (metis floor_divide_of_int_eq of_int_1 of_int_numeral)

section \<open>Cues from recognizer chunks\<close>

subsection \<open>A scenario\<close>

lemma normalize_hello_world: "normalizeCaptionText (str ''hello world'') = str ''hello world''"
  by (simp add: normalizeCaptionText_def trim_def str_def is_space_def SPACE_def)

lemma normalize_empty: "normalizeCaptionText (str '''') = []"
  by (simp add: normalizeCaptionText_def trim_def str_def is_space_def SPACE_def)

lemma normalize_goodbye: "normalizeCaptionText (str ''goodbye'') = str ''goodbye''"
  by (simp add: normalizeCaptionText_def trim_def str_def is_space_def SPACE_def)

lemma words_hello_world: "splitWords (str ''hello world'') = [str ''hello'', str ''world'']"
  by (simp add: splitWords_def str_def SPACE_def)

lemma words_goodbye: "splitWords (str ''goodbye'') = [str ''goodbye'']"
  by (simp add: splitWords_def str_def SPACE_def)

lemma literals_not_empty: "str ''hello world'' \<noteq> []" "str ''goodbye'' \<noteq> []" "str ''hello'' \<noteq> []" "str ''world'' \<noteq> []"
  by (simp_all add: str_def)

text \<open>
  Claim C4. The three chunks "hello world" [0,2], "" [2,3], "goodbye" [3,4] with fallback
  duration 4 give exactly the three cues "hello" [0,1), "world" [1,2), "goodbye" [3,4),
  whatever identifiers are generated.
\<close>

theorem buildCaptionCues_scenario:
  "buildCaptionCues uuid spokenChunks 4 =
     [\<lparr>CaptionCue.id = uuid 0, start = 0, end = 1, text = str ''hello''\<rparr>,
      \<lparr>CaptionCue.id = uuid 1, start = 1, end = 2, text = str ''world''\<rparr>,
      \<lparr>CaptionCue.id = uuid 2, start = 3, end = 4, text = str ''goodbye''\<rparr>]"
  by (simp add: buildCaptionCues_def buildLoop_def buildStep_def spokenChunks_def chunkText_def
      chunkSpan_def wordCues_def wordCue_def normalize_hello_world normalize_empty normalize_goodbye
      words_hello_world words_goodbye literals_not_empty Let_def upt_rec numeral_2_eq_2)

subsection \<open>Chunks without words\<close>

lemma is_space_SPACE: "is_space SPACE"
  by (simp add: is_space_def SPACE_def)

lemma split_not_Nil: "split sep s \<noteq> []"
  by (induction s) (auto split: list.splits)

lemma splitWords_Cons_nonspace: "c \<noteq> SPACE \<Longrightarrow> splitWords (c # cs) \<noteq> []"
  using split_not_Nil[of SPACE cs] by (auto simp: splitWords_def split: list.splits)

lemma trim_prefix:
  "dropWhile is_space s = trim s @ rev (takeWhile is_space (rev (dropWhile is_space s)))"
proof -
  let ?u = "rev (dropWhile is_space s)"
  have "rev (dropWhile is_space ?u) @ rev (takeWhile is_space ?u) =
          rev (takeWhile is_space ?u @ dropWhile is_space ?u)"
    by (simp only: rev_append)
  also have "\<dots> = rev ?u" by (simp only: takeWhile_dropWhile_id)
  also have "\<dots> = dropWhile is_space s" by (simp only: rev_rev_ident)
  finally show ?thesis by (simp only: trim_def)
qed

lemma hd_trim_nonspace: "trim s \<noteq> [] \<Longrightarrow> \<not> is_space (hd (trim s))"
proof -
  assume ne: "trim s \<noteq> []"
  then have "hd (dropWhile is_space s) = hd (trim s)"
    using trim_prefix[of s] by (metis hd_append2)
  moreover have "dropWhile is_space s \<noteq> []"
    using ne trim_prefix[of s] by (metis append_is_Nil_conv)
  ultimately show ?thesis using hd_dropWhile[of is_space s] by simp
qed

lemma words_of_normalized:
  "splitWords (normalizeCaptionText t) = [] \<longleftrightarrow> normalizeCaptionText t = []"
proof
  assume w: "splitWords (normalizeCaptionText t) = []"
  show "normalizeCaptionText t = []"
  proof (rule ccontr)
    assume ne: "normalizeCaptionText t \<noteq> []"
    then obtain c cs where e: "normalizeCaptionText t = c # cs" by (cases "normalizeCaptionText t") auto
    have "\<not> is_space c"
      using hd_trim_nonspace[of "replace_spaces t"] ne e by (simp add: normalizeCaptionText_def)
    then have "c \<noteq> SPACE" using is_space_SPACE by auto
    then show False using w e splitWords_Cons_nonspace by simp
  qed
next
  assume "normalizeCaptionText t = []"
  then show "splitWords (normalizeCaptionText t) = []" by (simp add: splitWords_def)
qed

lemma length_wordCues: "length (wordCues uuid calls a b ws) = length ws"
  by (simp add: wordCues_def Let_def)

lemma buildStep_silent:
  "splitWords (chunkText chunk) = [] \<Longrightarrow> buildStep uuid st chunk = st"
  using words_of_normalized[of "case AsrChunk.text chunk of None \<Rightarrow> [] | Some t \<Rightarrow> t"]
  by (simp add: buildStep_def chunkText_def)

lemma foldl_buildStep_silent:
  "\<forall>chunk \<in> set rawChunks. splitWords (chunkText chunk) = [] \<Longrightarrow>
   foldl (buildStep uuid) st rawChunks = st"
  by (induction rawChunks arbitrary: st) (simp_all add: buildStep_silent)

text \<open>
  Claim C5. When no chunk has a word after normalisation (the empty list included),
  \<open>buildCaptionCues\<close> returns exactly one cue, with the sentinel text, start 0 and end
  \<open>max 2 fallbackDuration\<close>; and it never returns the empty list.
\<close>

theorem buildCaptionCues_placeholder:
  "((\<forall>chunk \<in> set rawChunks. splitWords (chunkText chunk) = []) \<longrightarrow>
      buildCaptionCues uuid rawChunks fallbackDuration =
        [\<lparr>CaptionCue.id = uuid 0, start = 0, end = max 2 fallbackDuration,
          text = str ''No speech detected''\<rparr>]) \<and>
   buildCaptionCues uuid rawChunks fallbackDuration \<noteq> []"
proof
  show "(\<forall>chunk \<in> set rawChunks. splitWords (chunkText chunk) = []) \<longrightarrow>
      buildCaptionCues uuid rawChunks fallbackDuration =
        [\<lparr>CaptionCue.id = uuid 0, start = 0, end = max 2 fallbackDuration,
          text = str ''No speech detected''\<rparr>]"
    by (simp add: buildCaptionCues_def buildLoop_def foldl_buildStep_silent)
  show "buildCaptionCues uuid rawChunks fallbackDuration \<noteq> []"
    by (simp add: buildCaptionCues_def Let_def)
qed

lemma silent_blank: "chunkText \<lparr>AsrChunk.text = Some (str ''  ''), timestamp = Some (Some 2, Some 3)\<rparr> = []"
  by (simp add: chunkText_def normalizeCaptionText_def trim_def str_def is_space_def SPACE_def)

lemma silent_missing: "chunkText \<lparr>AsrChunk.text = None, timestamp = None\<rparr> = []"
  by (simp add: chunkText_def normalizeCaptionText_def trim_def)

theorem buildCaptionCues_placeholder_witness:
  "map chunkText silentChunks = [[], []] \<and>
   buildCaptionCues exampleUuid silentChunks 4 =
     [\<lparr>CaptionCue.id = exampleUuid 0, start = 0, end = 4, text = str ''No speech detected''\<rparr>] \<and>
   buildCaptionCues exampleUuid [] 1 =
     [\<lparr>CaptionCue.id = exampleUuid 0, start = 0, end = 2, text = str ''No speech detected''\<rparr>]"
proof -
  have h: "\<forall>chunk \<in> set silentChunks. splitWords (chunkText chunk) = []"
    by (simp add: silentChunks_def silent_blank silent_missing splitWords_def)
  have t: "map chunkText silentChunks = [[], []]"
    by (simp add: silentChunks_def silent_blank silent_missing)
  show ?thesis
    using h t buildCaptionCues_placeholder[of silentChunks exampleUuid 4]
      buildCaptionCues_placeholder[of "[]" exampleUuid 1]
    by simp
qed

subsection \<open>The cursor\<close>

lemma chunkSpan_bounds:
  assumes "0 \<le> cur"
  shows "0 \<le> fst (chunkSpan cur chunk) \<and> fst (chunkSpan cur chunk) + 1 / 5 \<le> snd (chunkSpan cur chunk)"
  using assms by (auto simp: chunkSpan_def Let_def split: option.splits prod.splits)

lemma buildStep_cursor:
  "cursor (buildStep uuid st chunk) =
     (if chunkText chunk = [] then cursor st else snd (chunkSpan (cursor st) chunk))"
  by (simp add: buildStep_def Let_def split: prod.splits)

lemma buildStep_cursor_nonneg:
  assumes "0 \<le> cursor st"
  shows "0 \<le> cursor (buildStep uuid st chunk)"
  using assms chunkSpan_bounds[OF assms, of chunk] by (simp add: buildStep_cursor)

lemma foldl_buildStep_cursor_nonneg:
  "0 \<le> cursor st \<Longrightarrow> 0 \<le> cursor (foldl (buildStep uuid) st rawChunks)"
  by (induction rawChunks arbitrary: st) (simp_all add: buildStep_cursor_nonneg)

lemma buildLoop_cursor_nonneg: "0 \<le> cursor (buildLoop uuid rawChunks)"
  by (simp add: buildLoop_def foldl_buildStep_cursor_nonneg)

lemma buildLoop_snoc:
  "buildLoop uuid (pre @ [chunk]) = buildStep uuid (buildLoop uuid pre) chunk"
  by (simp add: buildLoop_def)

lemma buildStep_cues:
  "chunkText chunk \<noteq> [] \<Longrightarrow>
   length (cues st) < length (cues (buildStep uuid st chunk))"
  using words_of_normalized[of "case AsrChunk.text chunk of None \<Rightarrow> [] | Some t \<Rightarrow> t"]
  by (simp add: buildStep_def chunkText_def Let_def length_wordCues split: prod.splits)

lemma chunkSpan_untimed:
  "timestamp chunk = None \<Longrightarrow> 0 \<le> cur \<Longrightarrow> chunkSpan cur chunk = (cur, cur + 2)"
  by (simp add: chunkSpan_def Let_def)

text \<open>
  Claim C10. The cursor of the loop starts at 0. A chunk whose text normalises to the
  empty string leaves the whole loop state, the cursor included, as it was, whatever its
  timestamp. A chunk with any other text produces at least one cue and sets the cursor to
  its adjusted end. A chunk without a timestamp is given the span from the cursor to the
  cursor plus 2. (\<open>buildLoop uuid pre\<close> is the loop state when the chunk after the
  chunks \<open>pre\<close> is reached.)
\<close>

theorem buildCaptionCues_cursor:
  "cursor (buildLoop uuid []) = 0 \<and>
   (chunkText chunk = [] \<longrightarrow> buildLoop uuid (pre @ [chunk]) = buildLoop uuid pre) \<and>
   (chunkText chunk \<noteq> [] \<longrightarrow>
      cursor (buildLoop uuid (pre @ [chunk])) =
        snd (chunkSpan (cursor (buildLoop uuid pre)) chunk) \<and>
      length (cues (buildLoop uuid pre)) < length (cues (buildLoop uuid (pre @ [chunk])))) \<and>
   (timestamp chunk = None \<longrightarrow>
      chunkSpan (cursor (buildLoop uuid pre)) chunk =
        (cursor (buildLoop uuid pre), cursor (buildLoop uuid pre) + 2))"
proof (intro conjI impI)
  show "cursor (buildLoop uuid []) = 0" by (simp add: buildLoop_def)
next
  assume "chunkText chunk = []"
  then show "buildLoop uuid (pre @ [chunk]) = buildLoop uuid pre"
    by (simp add: buildLoop_snoc buildStep_def)
next
  assume "chunkText chunk \<noteq> []"
  then show "cursor (buildLoop uuid (pre @ [chunk])) =
        snd (chunkSpan (cursor (buildLoop uuid pre)) chunk)"
    by (simp add: buildLoop_snoc buildStep_cursor)
next
  assume "chunkText chunk \<noteq> []"
  then show "length (cues (buildLoop uuid pre)) < length (cues (buildLoop uuid (pre @ [chunk])))"
    by (simp add: buildLoop_snoc buildStep_cues)
next
  assume "timestamp chunk = None"
  then show "chunkSpan (cursor (buildLoop uuid pre)) chunk =
        (cursor (buildLoop uuid pre), cursor (buildLoop uuid pre) + 2)"
    by (simp add: chunkSpan_untimed buildLoop_cursor_nonneg)
qed

lemma chunkText_goodbye: "chunkText untimedChunk = str ''goodbye''"
  by (simp add: chunkText_def untimedChunk_def normalize_goodbye)

lemma cursor_after_hello: "cursor (buildLoop exampleUuid (take 1 spokenChunks)) = 2"
  by (simp add: buildLoop_def buildStep_def spokenChunks_def chunkText_def chunkSpan_def
      normalize_hello_world words_hello_world literals_not_empty Let_def)

theorem buildCaptionCues_cursor_witness:
  "cursor (buildLoop exampleUuid (take 1 spokenChunks)) = 2 \<and>
   chunkText (spokenChunks ! 1) = [] \<and>
   timestamp (spokenChunks ! 1) = Some (Some 2, Some 3) \<and>
   cursor (buildLoop exampleUuid (take 1 spokenChunks @ [spokenChunks ! 1])) = 2 \<and>
   timestamp untimedChunk = None \<and>
   chunkSpan (cursor (buildLoop exampleUuid (take 1 spokenChunks))) untimedChunk = (2, 4) \<and>
   cursor (buildLoop exampleUuid (take 1 spokenChunks @ [untimedChunk])) = 4"
proof -
  have e: "chunkText (spokenChunks ! 1) = []"
    by (simp add: spokenChunks_def chunkText_def normalize_empty)
  have t: "timestamp (spokenChunks ! 1) = Some (Some 2, Some 3)"
    by (simp add: spokenChunks_def)
  have g: "chunkText untimedChunk \<noteq> []"
    by (simp add: chunkText_goodbye literals_not_empty)
  have u: "timestamp untimedChunk = None" by (simp add: untimedChunk_def)
  show ?thesis
    using e t g u cursor_after_hello
      buildCaptionCues_cursor[of exampleUuid "spokenChunks ! 1" "take 1 spokenChunks"]
      buildCaptionCues_cursor[of exampleUuid untimedChunk "take 1 spokenChunks"]
    by simp
qed

section \<open>Cues read back from the store\<close>

lemma normalize_abc: "normalizeCaptionText (str ''a b c'') = str ''a b c''"
  by (simp add: normalizeCaptionText_def trim_def str_def is_space_def SPACE_def)

lemma words_abc: "splitWords (str ''a b c'') = [str ''a'', str ''b'', str ''c'']"
  by (simp add: splitWords_def str_def SPACE_def)

lemma normalize_letters:
  "normalizeCaptionText (str ''a'') = str ''a''"
  "normalizeCaptionText (str ''b'') = str ''b''"
  "normalizeCaptionText (str ''c'') = str ''c''"
  by (simp_all add: normalizeCaptionText_def trim_def str_def is_space_def SPACE_def)

lemma words_letters:
  "splitWords (str ''a'') = [str ''a'']"
  "splitWords (str ''b'') = [str ''b'']"
  "splitWords (str ''c'') = [str ''c'']"
  by (simp_all add: splitWords_def str_def SPACE_def)

lemma letters_not_empty: "str ''a b c'' \<noteq> []" "str ''a'' \<noteq> []" "str ''b'' \<noteq> []" "str ''c'' \<noteq> []"
  by (simp_all add: str_def)

lemma exampleUuid_not_empty: "exampleUuid k \<noteq> []"
  by (simp add: exampleUuid_def str_def)

lemma quick_cues:
  "buildCaptionCues exampleUuid quickChunks 1 =
     [\<lparr>CaptionCue.id = exampleUuid 0, start = 0, end = 1 / 10, text = str ''a''\<rparr>,
      \<lparr>CaptionCue.id = exampleUuid 1, start = 1 / 10, end = 1 / 5, text = str ''b''\<rparr>,
      \<lparr>CaptionCue.id = exampleUuid 2, start = 1 / 5, end = 3 / 10, text = str ''c''\<rparr>]"
  by (simp add: buildCaptionCues_def buildLoop_def buildStep_def quickChunks_def chunkText_def
      chunkSpan_def wordCues_def wordCue_def normalize_abc words_abc letters_not_empty
      Let_def upt_rec numeral_2_eq_2 numeral_3_eq_3)

text \<open>
  Claim C6, as stated: renormalising cues that are already one word each returns the same
  texts and boundaries. It fails on cues the editor itself produces: the chunk "a b c"
  over [0, 0.3] gives three one-word cues of 0.1 seconds, and once saved and read back
  each of them has its end moved to 0.2 seconds after its start.
\<close>

theorem normalize_stored_counterexample:
  "map (\<lambda>cue. length (splitWords (normalizeCaptionText (CaptionCue.text cue))))
     (buildCaptionCues exampleUuid quickChunks 1) = [1, 1, 1] \<and>
   map (\<lambda>cue. (CaptionCue.start cue, CaptionCue.end cue))
     (buildCaptionCues exampleUuid quickChunks 1) = [(0, 1 / 10), (1 / 10, 1 / 5), (1 / 5, 3 / 10)] \<and>
   map (\<lambda>cue. (CaptionCue.start cue, CaptionCue.end cue))
     (normalizeStoredCaptionCues exampleUuid
        (map storedCaption (buildCaptionCues exampleUuid quickChunks 1))) =
     [(0, 1 / 5), (1 / 10, 3 / 10), (1 / 5, 2 / 5)]"
  by (simp add: quick_cues storedCaption_def normalizeStoredCaptionCues_def normalizeStep_def
      normalize_letters words_letters letters_not_empty exampleUuid_not_empty Let_def)


lemma split_only_separators:
  "filter (\<lambda>w. w \<noteq> []) (split sep u) = [] \<Longrightarrow> \<forall>c \<in> set u. c = sep"
proof (induction u)
  case Nil
  then show ?case by simp
next
  case (Cons c cs)
  show ?case
  proof (cases "c = sep")
    case True
    with Cons show ?thesis by simp
  next
    case False
    obtain p ps where "split sep cs = p # ps"
      using split_not_Nil[of sep cs] by (cases "split sep cs") auto
    with False Cons.prems show ?thesis by simp
  qed
qed

lemma single_word_is_text:
  "s \<noteq> [] \<Longrightarrow> hd s \<noteq> sep \<Longrightarrow> last s \<noteq> sep \<Longrightarrow>
   filter (\<lambda>w. w \<noteq> []) (split sep s) = [w] \<Longrightarrow> s = w"
proof (induction s arbitrary: w)
  case Nil
  then show ?case by simp
next
  case (Cons c cs)
  from Cons.prems have c: "c \<noteq> sep" by simp
  obtain p ps where sp: "split sep cs = p # ps"
    using split_not_Nil[of sep cs] by (cases "split sep cs") auto
  from Cons.prems(4) c sp have w: "w = c # p" and ps: "filter (\<lambda>w. w \<noteq> []) ps = []"
    by simp_all
  show ?case
  proof (cases cs)
    case Nil
    with sp w show ?thesis by simp
  next
    case (Cons c' cs')
    note cs = Cons
    show ?thesis
    proof (cases "c' = sep")
      case True
      with cs sp have "ps = split sep cs'" by simp
      with ps have "\<forall>d \<in> set cs'. d = sep" using split_only_separators by blast
      then have "last (c' # cs') = sep" using True by (cases cs' rule: rev_cases) auto
      with cs Cons.prems(3) show ?thesis by simp
    next
      case False
      with cs sp have "p \<noteq> []" by (auto split: list.splits)
      with ps sp have "filter (\<lambda>w. w \<noteq> []) (split sep cs) = [p]" by simp
      moreover have "cs \<noteq> []" "hd cs \<noteq> sep" "last cs \<noteq> sep"
        using cs False Cons.prems(3) by simp_all
      ultimately have "cs = p" using Cons.IH by blast
      with w show ?thesis by simp
    qed
  qed
qed

lemma last_trim_nonspace: "trim s \<noteq> [] \<Longrightarrow> \<not> is_space (last (trim s))"
proof -
  let ?ys = "dropWhile is_space (rev (dropWhile is_space s))"
  assume "trim s \<noteq> []"
  then have ne: "?ys \<noteq> []" by (simp add: trim_def)
  then have "\<not> is_space (hd ?ys)" by (rule hd_dropWhile)
  moreover have "last (trim s) = hd ?ys" using ne by (simp add: trim_def last_rev)
  ultimately show ?thesis by simp
qed

lemma one_word_normalized:
  assumes "splitWords (normalizeCaptionText t) = [w]"
  shows "normalizeCaptionText t = w"
proof -
  let ?s = "normalizeCaptionText t"
  have ne: "?s \<noteq> []" using assms words_of_normalized[of t] by auto
  then have "\<not> is_space (hd ?s)" "\<not> is_space (last ?s)"
    using hd_trim_nonspace[of "replace_spaces t"] last_trim_nonspace[of "replace_spaces t"]
    by (simp_all add: normalizeCaptionText_def)
  then have "hd ?s \<noteq> SPACE" "last ?s \<noteq> SPACE" using is_space_SPACE by auto
  with ne assms show ?thesis
    using single_word_is_text[of ?s SPACE w] by (simp add: splitWords_def)
qed

lemma normalizeStep_one_word:
  assumes "length (splitWords (normalizeCaptionText (StoredCaptionCue.text cue))) = 1"
    and "StoredCaptionCue.start cue = Some s" and "StoredCaptionCue.end cue = Some e"
    and "0 \<le> s" and "s + 1 / 5 \<le> e"
  shows "\<exists>i calls'. normalizeStep uuid (normalized, calls) cue =
           (normalized @
              [\<lparr>CaptionCue.id = i, start = s, end = e,
                text = normalizeCaptionText (StoredCaptionCue.text cue)\<rparr>], calls')"
proof -
  have "normalizeCaptionText (StoredCaptionCue.text cue) \<noteq> []"
    using assms(1) words_of_normalized[of "StoredCaptionCue.text cue"] by auto
  then show ?thesis
    using assms by (simp add: normalizeStep_def Let_def max_def)
qed

lemma foldl_normalizeStep_one_word:
  assumes "\<forall>cue \<in> set rawCues.
      length (splitWords (normalizeCaptionText (StoredCaptionCue.text cue))) = 1 \<and>
      (\<exists>s e. StoredCaptionCue.start cue = Some s \<and> StoredCaptionCue.end cue = Some e \<and>
             0 \<le> s \<and> s + 1 / 5 \<le> e)"
  shows "map (\<lambda>q. (CaptionCue.text q, Some (CaptionCue.start q), Some (CaptionCue.end q)))
           (fst (foldl (normalizeStep uuid) (normalized, calls) rawCues)) =
         map (\<lambda>q. (CaptionCue.text q, Some (CaptionCue.start q), Some (CaptionCue.end q)))
           normalized @
         map (\<lambda>cue. (normalizeCaptionText (StoredCaptionCue.text cue),
                      StoredCaptionCue.start cue, StoredCaptionCue.end cue)) rawCues"
  using assms
proof (induction rawCues arbitrary: normalized calls)
  case Nil
  then show ?case by simp
next
  case (Cons cue rest)
  from Cons.prems obtain s e where
    c: "length (splitWords (normalizeCaptionText (StoredCaptionCue.text cue))) = 1"
      "StoredCaptionCue.start cue = Some s" "StoredCaptionCue.end cue = Some e"
      "0 \<le> s" "s + 1 / 5 \<le> e"
    by auto
  obtain i calls' where
    st: "normalizeStep uuid (normalized, calls) cue =
           (normalized @
              [\<lparr>CaptionCue.id = i, start = s, end = e,
                text = normalizeCaptionText (StoredCaptionCue.text cue)\<rparr>], calls')"
    using normalizeStep_one_word[OF c] by blast
  have "\<forall>cue \<in> set rest.
      length (splitWords (normalizeCaptionText (StoredCaptionCue.text cue))) = 1 \<and>
      (\<exists>s e. StoredCaptionCue.start cue = Some s \<and> StoredCaptionCue.end cue = Some e \<and>
             0 \<le> s \<and> s + 1 / 5 \<le> e)"
    using Cons.prems by simp
  from Cons.IH[OF this] show ?case using st c by simp
qed

text \<open>
  Claim C6, amended: when every stored cue is one word after normalisation and has a
  finite start that is not negative and a finite end at least 0.2 seconds after its start,
  \<open>normalizeStoredCaptionCues\<close> returns, cue by cue, the same start and end and the
  word as text (the normalised text, which is that one word); only identifiers may
  differ.
\<close>

theorem normalize_stored_one_word:
  assumes "\<forall>cue \<in> set rawCues.
      length (splitWords (normalizeCaptionText (StoredCaptionCue.text cue))) = 1 \<and>
      (\<exists>s e. StoredCaptionCue.start cue = Some s \<and> StoredCaptionCue.end cue = Some e \<and>
             0 \<le> s \<and> s + 1 / 5 \<le> e)"
  shows "map (\<lambda>q. (CaptionCue.text q, Some (CaptionCue.start q), Some (CaptionCue.end q)))
           (normalizeStoredCaptionCues uuid rawCues) =
         map (\<lambda>cue. (normalizeCaptionText (StoredCaptionCue.text cue),
                      StoredCaptionCue.start cue, StoredCaptionCue.end cue)) rawCues \<and>
         (\<forall>cue \<in> set rawCues.
            splitWords (normalizeCaptionText (StoredCaptionCue.text cue)) =
              [normalizeCaptionText (StoredCaptionCue.text cue)])"
proof
  show "map (\<lambda>q. (CaptionCue.text q, Some (CaptionCue.start q), Some (CaptionCue.end q)))
           (normalizeStoredCaptionCues uuid rawCues) =
         map (\<lambda>cue. (normalizeCaptionText (StoredCaptionCue.text cue),
                      StoredCaptionCue.start cue, StoredCaptionCue.end cue)) rawCues"
    using foldl_normalizeStep_one_word[OF assms, of uuid "[]" 0]
    by (simp add: normalizeStoredCaptionCues_def)
  show "\<forall>cue \<in> set rawCues.
            splitWords (normalizeCaptionText (StoredCaptionCue.text cue)) =
              [normalizeCaptionText (StoredCaptionCue.text cue)]"
  proof
    fix cue assume "cue \<in> set rawCues"
    with assms have "length (splitWords (normalizeCaptionText (StoredCaptionCue.text cue))) = 1"
      by blast
    then obtain w where w: "splitWords (normalizeCaptionText (StoredCaptionCue.text cue)) = [w]"
      by (cases "splitWords (normalizeCaptionText (StoredCaptionCue.text cue))") auto
    with one_word_normalized[OF w] show
      "splitWords (normalizeCaptionText (StoredCaptionCue.text cue)) =
              [normalizeCaptionText (StoredCaptionCue.text cue)]" by simp
  qed
qed

lemma normalize_world_padded: "normalizeCaptionText (str '' world '') = str ''world''"
  by (simp add: normalizeCaptionText_def trim_def str_def is_space_def SPACE_def)

lemma normalize_hello: "normalizeCaptionText (str ''hello'') = str ''hello''"
  by (simp add: normalizeCaptionText_def trim_def str_def is_space_def SPACE_def)

lemma words_hello_and_world:
  "splitWords (str ''hello'') = [str ''hello'']"
  "splitWords (str ''world'') = [str ''world'']"
  by (simp_all add: splitWords_def str_def SPACE_def)

theorem normalize_stored_one_word_witness:
  "map (\<lambda>q. (CaptionCue.text q, CaptionCue.start q, CaptionCue.end q))
     (normalizeStoredCaptionCues exampleUuid storedWords) =
   [(str ''hello'', 0, 1), (str ''world'', 1, 2)]"
proof -
  have h: "\<forall>cue \<in> set storedWords.
      length (splitWords (normalizeCaptionText (StoredCaptionCue.text cue))) = 1 \<and>
      (\<exists>s e. StoredCaptionCue.start cue = Some s \<and> StoredCaptionCue.end cue = Some e \<and>
             0 \<le> s \<and> s + 1 / 5 \<le> e)"
    by (simp add: storedWords_def normalize_hello normalize_world_padded words_hello_and_world)
  have "map (\<lambda>q. (CaptionCue.text q, Some (CaptionCue.start q), Some (CaptionCue.end q)))
          (normalizeStoredCaptionCues exampleUuid storedWords) =
        [(str ''hello'', Some 0, Some 1), (str ''world'', Some 1, Some 2)]"
    using normalize_stored_one_word[OF h, of exampleUuid]
    by (simp add: storedWords_def normalize_hello normalize_world_padded)
  then have "map ((\<lambda>(t, s, e). (t, the s, the e)) \<circ>
               (\<lambda>q. (CaptionCue.text q, Some (CaptionCue.start q), Some (CaptionCue.end q))))
          (normalizeStoredCaptionCues exampleUuid storedWords) =
        map (\<lambda>(t, s, e). (t, the s, the e))
          [(str ''hello'', Some 0, Some 1), (str ''world'', Some 1, Some 2)]"
    by (simp only: map_map[symmetric])
  then show ?thesis by (simp add: comp_def)
qed

section \<open>Conversion of an empty recording\<close>

text \<open>For comparison: a recording that is not empty is sent in one request, and a body
  that is not empty reaches the transcoder when its binary is there.\<close>

lemma convertWebmToMp4_sends_one_request:
  "blobSize webmBlob \<noteq> 0 \<Longrightarrow>
   fst (convertWebmToMp4 network webmBlob) =
     [\<lparr>path = str ''/api/export-mp4'', method = str ''POST'',
       headers = [(str ''content-type'', str ''video/webm'')], body = content webmBlob\<rparr>]"
  by (simp add: convertWebmToMp4_def Let_def split: FetchOutcome.splits)

lemma exportMp4Handler_runs_ffmpeg:
  "concat chunks \<noteq> [] \<Longrightarrow>
   RunFfmpeg ffmpegPath \<in> set (fst (exportMp4Handler (Some ffmpegPath) ffmpeg chunks))"
  by (simp add: exportMp4Handler_def Let_def split: FfmpegOutcome.splits)

text \<open>
  Claim C9. Converting a recording of size zero throws the error that names the empty
  buffer and sends no request; and the endpoint answers an empty request body with the
  error 400 "Missing video payload" before any file is written or the transcoder is
  started.
\<close>

theorem empty_recording_rejected:
  "(blobSize webmBlob = 0 \<longrightarrow>
      convertWebmToMp4 network webmBlob =
        ([], Inl (Error (str
           ''Rendered video buffer is empty. Please add at least one playable clip and retry.'')))) \<and>
   (concat chunks = [] \<longrightarrow>
      exportMp4Handler ffmpegStatic ffmpeg chunks =
        ([], Inl (HttpError 400 (str ''Missing video payload''))))"
  by (simp add: convertWebmToMp4_def exportMp4Handler_def)

theorem empty_recording_rejected_witness:
  "blobSize emptyRecording = 0 \<and>
   convertWebmToMp4 unreachableNetwork emptyRecording =
     ([], Inl (Error (str
        ''Rendered video buffer is empty. Please add at least one playable clip and retry.''))) \<and>
   exportMp4Handler (Some (str ''/usr/bin/ffmpeg'')) brokenFfmpeg [[], []] =
     ([], Inl (HttpError 400 (str ''Missing video payload'')))"
proof -
  have z: "blobSize emptyRecording = 0" by (simp add: blobSize_def emptyRecording_def)
  have c: "concat [[], []] = ([] :: bytes)" by simp
  show ?thesis
    using z c empty_recording_rejected[of emptyRecording unreachableNetwork "[[], []]"
        "Some (str ''/usr/bin/ffmpeg'')" brokenFfmpeg]
    by simp
qed

end
